theory Spec2Isabelle
  imports Complex_Main
begin

section \<open>Data model (src/App.tsx, src/components/Editor.tsx)\<close>

text \<open>
  A JavaScript \<open>number\<close> is modelled as a \<^typ>\<open>real\<close>: arithmetic is exact, and there is
  no NaN and no infinity. A value that may be \<open>null\<close> or \<open>undefined\<close> is an \<open>option\<close>.
  The fields of a layer carry the prefix \<open>l_\<close> (the source's \<open>x\<close>, \<open>y\<close> and \<open>id\<close> would
  otherwise capture the variables of every later statement); the \<open>File\<close> handle of a
  layer plays no part in the geometry and is left out. The interfaces \<open>Layer\<close> and
  \<open>EditorState\<close> are declared in \<open>./types\<close>; their fields are read off the object
  literals of \<open>App.tsx\<close> that build them.
\<close>

record Layer =
  l_id :: string
  l_src :: string
  l_name :: string
  l_x :: real
  l_y :: real
  l_scale :: real
  l_rotation :: real
  l_width :: real
  l_height :: real
  l_visible :: bool

text \<open>\<open>Partial<Layer>\<close>: every field may be absent.\<close>

record PartialLayer =
  u_id :: "string option"
  u_src :: "string option"
  u_name :: "string option"
  u_x :: "real option"
  u_y :: "real option"
  u_scale :: "real option"
  u_rotation :: "real option"
  u_width :: "real option"
  u_height :: "real option"
  u_visible :: "bool option"

definition noUpdates :: PartialLayer where
  "noUpdates = \<lparr>u_id = None, u_src = None, u_name = None, u_x = None, u_y = None,
     u_scale = None, u_rotation = None, u_width = None, u_height = None, u_visible = None\<rparr>"

text \<open>The object spread \<open>{ ...l, ...updates }\<close>: a field present in the update wins.\<close>

definition spread :: "Layer \<Rightarrow> PartialLayer \<Rightarrow> Layer" where
  "spread l u =
     \<lparr>l_id = (case u_id u of None \<Rightarrow> l_id l | Some v \<Rightarrow> v),
      l_src = (case u_src u of None \<Rightarrow> l_src l | Some v \<Rightarrow> v),
      l_name = (case u_name u of None \<Rightarrow> l_name l | Some v \<Rightarrow> v),
      l_x = (case u_x u of None \<Rightarrow> l_x l | Some v \<Rightarrow> v),
      l_y = (case u_y u of None \<Rightarrow> l_y l | Some v \<Rightarrow> v),
      l_scale = (case u_scale u of None \<Rightarrow> l_scale l | Some v \<Rightarrow> v),
      l_rotation = (case u_rotation u of None \<Rightarrow> l_rotation l | Some v \<Rightarrow> v),
      l_width = (case u_width u of None \<Rightarrow> l_width l | Some v \<Rightarrow> v),
      l_height = (case u_height u of None \<Rightarrow> l_height l | Some v \<Rightarrow> v),
      l_visible = (case u_visible u of None \<Rightarrow> l_visible l | Some v \<Rightarrow> v)\<rparr>"

record EditorState =
  backgroundSrc :: "string option"
  layers :: "Layer list"
  selectedLayerId :: "string option"
  canvasScale :: real

definition initialState :: EditorState where
  "initialState = \<lparr>backgroundSrc = None, layers = [], selectedLayerId = None, canvasScale = 1\<rparr>"

section \<open>The state updates of App.tsx\<close>

definition handleUploadBackground :: "string \<Rightarrow> EditorState \<Rightarrow> EditorState" where
  "handleUploadBackground url prev = prev\<lparr>backgroundSrc := Some url\<rparr>"

text \<open>
  The \<open>onload\<close> callback of \<open>handleUploadForeground\<close> for one file: the random identifier
  and the decoded natural size are its inputs.
\<close>

definition foregroundLoaded ::
  "string \<Rightarrow> string \<Rightarrow> string \<Rightarrow> real \<Rightarrow> real \<Rightarrow> EditorState \<Rightarrow> EditorState" where
  "foregroundLoaded newId url fileName naturalWidth naturalHeight prev =
     prev\<lparr>layers := layers prev @
       [\<lparr>l_id = newId, l_src = url, l_name = fileName, l_x = 50, l_y = 50, l_scale = 1,
         l_rotation = 0, l_width = naturalWidth, l_height = naturalHeight,
         l_visible = True\<rparr>]\<rparr>"

definition handleSelectLayer :: "string option \<Rightarrow> EditorState \<Rightarrow> EditorState" where
  "handleSelectLayer i prev = prev\<lparr>selectedLayerId := i\<rparr>"

definition handleUpdateLayer :: "string \<Rightarrow> PartialLayer \<Rightarrow> EditorState \<Rightarrow> EditorState" where
  "handleUpdateLayer i updates prev =
     prev\<lparr>layers := map (\<lambda>l. if l_id l = i then spread l updates else l) (layers prev)\<rparr>"

definition handleDeleteLayer :: "string \<Rightarrow> EditorState \<Rightarrow> EditorState" where
  "handleDeleteLayer i prev =
     prev\<lparr>layers := filter (\<lambda>l. l_id l \<noteq> i) (layers prev),
          selectedLayerId :=
            (if selectedLayerId prev = Some i then None else selectedLayerId prev)\<rparr>"

definition handleToggleVisibility :: "string \<Rightarrow> EditorState \<Rightarrow> EditorState" where
  "handleToggleVisibility i prev =
     prev\<lparr>layers :=
       map (\<lambda>l. if l_id l = i then l\<lparr>l_visible := \<not> l_visible l\<rparr> else l) (layers prev)\<rparr>"

section \<open>The transform controller (Editor.tsx)\<close>

datatype DragMode = Move | Resize | Rotate

datatype ResizeHandle = NW | NE | SW | SE

record DragState =
  ds_mode :: DragMode
  ds_handle :: "ResizeHandle option"
  ds_startX :: real
  ds_startY :: real
  ds_startLayerState :: Layer
  ds_centerWorldStart :: "real \<times> real"
  ds_pivotWorld :: "(real \<times> real) option"
  ds_startDist :: "real option"
  ds_startAngle :: "real option"

text \<open>The state local to the Editor component: \<open>dragState\<close>, \<open>bgSize\<close>, \<open>isDraggingRef\<close>.\<close>

record EditorLocal =
  dragState :: "DragState option"
  bgSize :: "real \<times> real"
  isDraggingRef :: bool

definition initialLocal :: EditorLocal where
  "initialLocal = \<lparr>dragState = None, bgSize = (800, 600), isDraggingRef = False\<rparr>"

definition toRad :: "real \<Rightarrow> real" where
  "toRad deg = deg * pi / 180"

text \<open>
  \<open>Math.hypot\<close> and \<open>Math.atan2\<close> on finite arguments, as ECMAScript specifies them
  (without the sign of zero): the angle of the point \<open>(x, y)\<close>, in \<open>(-\<pi>, \<pi>]\<close>.
\<close>

definition hypot :: "real \<Rightarrow> real \<Rightarrow> real" where
  "hypot a b = sqrt (a\<^sup>2 + b\<^sup>2)"

definition atan2 :: "real \<Rightarrow> real \<Rightarrow> real" where
  "atan2 y x =
     (if 0 < x then arctan (y / x)
      else if x < 0 then (if 0 \<le> y then arctan (y / x) + pi else arctan (y / x) - pi)
      else if 0 < y then pi / 2
      else if y < 0 then - (pi / 2)
      else 0)"

record PointerEvent =
  clientX :: real
  clientY :: real

text \<open>
  \<open>getLocalCoords\<close>: the first argument is the \<open>(left, top)\<close> of the bounding rectangle
  of the canvas element, \<open>None\<close> when \<open>canvasRef.current\<close> is null.
\<close>

definition getLocalCoords :: "(real \<times> real) option \<Rightarrow> PointerEvent \<Rightarrow> real \<times> real" where
  "getLocalCoords rect e =
     (case rect of
        None \<Rightarrow> (clientX e, clientY e)
      | Some r \<Rightarrow> (clientX e - fst r, clientY e - snd r))"

text \<open>
  \<open>handlePointerDown\<close>. The selection changes at once; the gesture starts only when the
  layer is found. For a resize the pivot is the corner opposite the handle.
\<close>

definition handlePointerDown ::
  "(real \<times> real) option \<Rightarrow> PointerEvent \<Rightarrow> string \<Rightarrow> DragMode \<Rightarrow> ResizeHandle option
     \<Rightarrow> EditorState \<times> EditorLocal \<Rightarrow> EditorState \<times> EditorLocal" where
  "handlePointerDown rect e layerId mode handle se =
     (let st = fst se; ed = snd se;
          st' = (if selectedLayerId st \<noteq> Some layerId
                 then handleSelectLayer (Some layerId) st else st)
      in case find (\<lambda>l. l_id l = layerId) (layers st) of
           None \<Rightarrow> (st', ed)
         | Some layer \<Rightarrow>
            (let mouseX = fst (getLocalCoords rect e);
                 mouseY = snd (getLocalCoords rect e);
                 cx = l_x layer + l_width layer / 2;
                 cy = l_y layer + l_height layer / 2;
                 state = \<lparr>ds_mode = mode, ds_handle = handle,
                          ds_startX = mouseX, ds_startY = mouseY,
                          ds_startLayerState = layer,
                          ds_centerWorldStart = (cx, cy),
                          ds_pivotWorld = None, ds_startDist = None, ds_startAngle = None\<rparr>;
                 state' =
                   (if mode = Resize \<and> handle \<noteq> None then
                      (let px = (case the handle of
                                   NW \<Rightarrow> l_width layer | NE \<Rightarrow> 0
                                 | SW \<Rightarrow> l_width layer | SE \<Rightarrow> 0);
                           py = (case the handle of
                                   NW \<Rightarrow> l_height layer | NE \<Rightarrow> l_height layer
                                 | SW \<Rightarrow> 0 | SE \<Rightarrow> 0);
                           dx = (px - l_width layer / 2) * l_scale layer;
                           dy = (py - l_height layer / 2) * l_scale layer;
                           rad = toRad (l_rotation layer);
                           rotatedOffX = dx * cos rad - dy * sin rad;
                           rotatedOffY = dx * sin rad + dy * cos rad;
                           pivotX = cx + rotatedOffX;
                           pivotY = cy + rotatedOffY
                       in state\<lparr>ds_pivotWorld := Some (pivotX, pivotY),
                                ds_startDist := Some (hypot (mouseX - pivotX) (mouseY - pivotY))\<rparr>)
                    else if mode = Rotate then
                      state\<lparr>ds_startAngle := Some (atan2 (mouseY - cy) (mouseX - cx))\<rparr>
                    else state)
             in (st', ed\<lparr>dragState := Some state', isDraggingRef := False\<rparr>)))"

text \<open>
  \<open>handlePointerMove\<close>. The guard \<open>!selectedLayerId\<close> is true for \<open>null\<close> and for the
  empty string; \<open>dragState.startDist\<close> in a condition is false when it is undefined or 0.
  A division by 0 gives NaN or an infinity in JavaScript and 0 here: the two agree
  where the divisors, the initial distance and the snapshot scale, are not 0.
\<close>

definition handlePointerMove ::
  "(real \<times> real) option \<Rightarrow> PointerEvent \<Rightarrow> EditorState \<times> EditorLocal
     \<Rightarrow> EditorState \<times> EditorLocal" where
  "handlePointerMove rect e se =
     (let st = fst se; ed = snd se
      in if dragState ed = None \<or> selectedLayerId st = None \<or> selectedLayerId st = Some []
         then (st, ed)
         else
          (let ds = the (dragState ed);
               sel = the (selectedLayerId st);
               ed' = ed\<lparr>isDraggingRef := True\<rparr>;
               currX = fst (getLocalCoords rect e);
               currY = snd (getLocalCoords rect e);
               startX = ds_startX ds;
               startY = ds_startY ds;
               startLayerState = ds_startLayerState ds;
               centerWorldStart = ds_centerWorldStart ds
           in if ds_mode ds = Move then
                (let dx = currX - startX; dy = currY - startY
                 in (handleUpdateLayer sel
                       (noUpdates\<lparr>u_x := Some (l_x startLayerState + dx),
                                  u_y := Some (l_y startLayerState + dy)\<rparr>) st, ed'))
              else if ds_mode ds = Rotate \<and> ds_startAngle ds \<noteq> None then
                (let currAngle = atan2 (currY - snd centerWorldStart) (currX - fst centerWorldStart);
                     degDelta = (currAngle - the (ds_startAngle ds)) * 180 / pi
                 in (handleUpdateLayer sel
                       (noUpdates\<lparr>u_rotation := Some (l_rotation startLayerState + degDelta)\<rparr>)
                       st, ed'))
              else if ds_mode ds = Resize \<and> ds_pivotWorld ds \<noteq> None
                      \<and> ds_startDist ds \<noteq> None \<and> ds_startDist ds \<noteq> Some 0 then
                (let pivotX = fst (the (ds_pivotWorld ds));
                     pivotY = snd (the (ds_pivotWorld ds));
                     currDist = hypot (currX - pivotX) (currY - pivotY)
                 in if currDist < 1 then (st, ed')
                    else
                     (let newScale = max 0.05
                            (l_scale startLayerState * (currDist / the (ds_startDist ds)));
                          pivotToCenterX = fst centerWorldStart - pivotX;
                          pivotToCenterY = snd centerWorldStart - pivotY;
                          scaleRatio = newScale / l_scale startLayerState;
                          newCenterX = pivotX + pivotToCenterX * scaleRatio;
                          newCenterY = pivotY + pivotToCenterY * scaleRatio;
                          newX = newCenterX - l_width startLayerState / 2;
                          newY = newCenterY - l_height startLayerState / 2
                      in (handleUpdateLayer sel
                            (noUpdates\<lparr>u_x := Some newX, u_y := Some newY,
                                       u_scale := Some newScale\<rparr>) st, ed')))
              else (st, ed')))"

definition handlePointerUp :: "EditorState \<times> EditorLocal \<Rightarrow> EditorState \<times> EditorLocal" where
  "handlePointerUp se = (fst se, (snd se)\<lparr>dragState := None\<rparr>)"

text \<open>
  A run of pointer-move events, each with the bounding rectangle current when it is
  handled.
\<close>

definition pointerMoves ::
  "((real \<times> real) option \<times> PointerEvent) list \<Rightarrow> EditorState \<times> EditorLocal
     \<Rightarrow> EditorState \<times> EditorLocal" where
  "pointerMoves es se = fold (\<lambda>p. handlePointerMove (fst p) (snd p)) es se"

text \<open>
  Recomputing the pivot of a resize from a layer, in the words of the specification: the
  offset of the corner opposite the handle from the centre, in unscaled local
  coordinates, times the scale, rotated by the rotation, added to the centre.
\<close>

definition oppositeCorner :: "ResizeHandle \<Rightarrow> Layer \<Rightarrow> real \<times> real" where
  "oppositeCorner h l =
     (case h of
        NW \<Rightarrow> (l_width l, l_height l)
      | NE \<Rightarrow> (0, l_height l)
      | SW \<Rightarrow> (l_width l, 0)
      | SE \<Rightarrow> (0, 0))"

definition pivotWorldOf :: "ResizeHandle \<Rightarrow> Layer \<Rightarrow> real \<times> real" where
  "pivotWorldOf h l =
     (let offX = (fst (oppositeCorner h l) - l_width l / 2) * l_scale l;
          offY = (snd (oppositeCorner h l) - l_height l / 2) * l_scale l;
          rad = toRad (l_rotation l)
      in (l_x l + l_width l / 2 + (offX * cos rad - offY * sin rad),
          l_y l + l_height l / 2 + (offX * sin rad + offY * cos rad)))"

text \<open>
  The scale of a resize update in the words of the specification: the snapshot scale
  times the ratio of the current to the initial pivot-to-pointer distance, floored
  at 0.05.
\<close>

definition resizedScale :: "real \<Rightarrow> real \<Rightarrow> real \<Rightarrow> real" where
  "resizedScale snapshotScale startDist currDist =
     max 0.05 (snapshotScale * (currDist / startDist))"

text \<open>
  What stays true of the editor through a resize gesture begun with handle \<open>h\<close> on the
  layer \<open>L\<close> at position \<open>k\<close> of the list: the drag session and the selection are those of
  the gesture's start, the layer at \<open>k\<close> keeps its identifier, intrinsic size and rotation,
  and its recomputed pivot is the pivot of \<open>L\<close>.
\<close>

definition resizeInvariant ::
  "ResizeHandle \<Rightarrow> Layer \<Rightarrow> DragState \<Rightarrow> nat \<Rightarrow> EditorState \<times> EditorLocal \<Rightarrow> bool" where
  "resizeInvariant h L ds k se \<longleftrightarrow>
     dragState (snd se) = Some ds \<and>
     selectedLayerId (fst se) = Some (l_id L) \<and>
     k < length (layers (fst se)) \<and>
     l_id (layers (fst se) ! k) = l_id L \<and>
     l_width (layers (fst se) ! k) = l_width L \<and>
     l_height (layers (fst se) ! k) = l_height L \<and>
     l_rotation (layers (fst se) ! k) = l_rotation L \<and>
     pivotWorldOf h (layers (fst se) ! k) = pivotWorldOf h L"

section \<open>The canvas of the export and the styles of the preview\<close>

text \<open>
  A 2D affine transform with the field names of \<open>DOMMatrix\<close>: the point \<open>(x, y)\<close> goes to
  \<open>(a x + c y + e, b x + d y + f)\<close>.
\<close>

record Matrix =
  m_a :: real
  m_b :: real
  m_c :: real
  m_d :: real
  m_e :: real
  m_f :: real

definition identityMatrix :: Matrix where
  "identityMatrix = \<lparr>m_a = 1, m_b = 0, m_c = 0, m_d = 1, m_e = 0, m_f = 0\<rparr>"

definition matMul :: "Matrix \<Rightarrow> Matrix \<Rightarrow> Matrix" where
  "matMul p q =
     \<lparr>m_a = m_a p * m_a q + m_c p * m_b q,
      m_b = m_b p * m_a q + m_d p * m_b q,
      m_c = m_a p * m_c q + m_c p * m_d q,
      m_d = m_b p * m_c q + m_d p * m_d q,
      m_e = m_a p * m_e q + m_c p * m_f q + m_e p,
      m_f = m_b p * m_e q + m_d p * m_f q + m_f p\<rparr>"

definition translation :: "real \<Rightarrow> real \<Rightarrow> Matrix" where
  "translation tx ty = \<lparr>m_a = 1, m_b = 0, m_c = 0, m_d = 1, m_e = tx, m_f = ty\<rparr>"

definition rotation :: "real \<Rightarrow> Matrix" where
  "rotation rad =
     \<lparr>m_a = cos rad, m_b = sin rad, m_c = - sin rad, m_d = cos rad, m_e = 0, m_f = 0\<rparr>"

definition scaling :: "real \<Rightarrow> real \<Rightarrow> Matrix" where
  "scaling sx sy = \<lparr>m_a = sx, m_b = 0, m_c = 0, m_d = sy, m_e = 0, m_f = 0\<rparr>"

definition applyMatrix :: "Matrix \<Rightarrow> real \<times> real \<Rightarrow> real \<times> real" where
  "applyMatrix m p =
     (m_a m * fst p + m_c m * snd p + m_e m, m_b m * fst p + m_d m * snd p + m_f m)"

record HTMLImage =
  img_src :: string
  naturalWidth :: real
  naturalHeight :: real

text \<open>
  What \<open>ctx.drawImage(img, dx, dy, dw, dh)\<close> paints: the image, stretched over the
  rectangle, under the transform current at the call. The raster of a canvas is the
  sequence of these commands, in paint order.
\<close>

datatype DrawCmd = DrawImage HTMLImage Matrix real real real real

record Ctx =
  ctm :: Matrix
  saved :: "Matrix list"
  drawn :: "DrawCmd list"

definition ctx_save :: "Ctx \<Rightarrow> Ctx" where
  "ctx_save c = c\<lparr>saved := ctm c # saved c\<rparr>"

definition ctx_restore :: "Ctx \<Rightarrow> Ctx" where
  "ctx_restore c = (case saved c of [] \<Rightarrow> c | m # ms \<Rightarrow> c\<lparr>ctm := m, saved := ms\<rparr>)"

definition ctx_translate :: "real \<Rightarrow> real \<Rightarrow> Ctx \<Rightarrow> Ctx" where
  "ctx_translate tx ty c = c\<lparr>ctm := matMul (ctm c) (translation tx ty)\<rparr>"

definition ctx_rotate :: "real \<Rightarrow> Ctx \<Rightarrow> Ctx" where
  "ctx_rotate rad c = c\<lparr>ctm := matMul (ctm c) (rotation rad)\<rparr>"

definition ctx_scale :: "real \<Rightarrow> real \<Rightarrow> Ctx \<Rightarrow> Ctx" where
  "ctx_scale sx sy c = c\<lparr>ctm := matMul (ctm c) (scaling sx sy)\<rparr>"

definition ctx_drawImage :: "HTMLImage \<Rightarrow> real \<Rightarrow> real \<Rightarrow> real \<Rightarrow> real \<Rightarrow> Ctx \<Rightarrow> Ctx" where
  "ctx_drawImage img dx dy dw dh c = c\<lparr>drawn := drawn c @ [DrawImage img (ctm c) dx dy dw dh]\<rparr>"

text \<open>Where the point at offset \<open>(u, v)\<close> of the destination rectangle lands on the canvas.\<close>

fun drawnPoint :: "DrawCmd \<Rightarrow> real \<times> real \<Rightarrow> real \<times> real" where
  "drawnPoint (DrawImage img m dx dy dw dh) p = applyMatrix m (dx + fst p, dy + snd p)"

section \<open>Export (handleDownload in App.tsx)\<close>

text \<open>
  The loop over \<open>state.layers\<close>. \<open>loadImage\<close> gives the decoded image of a source, or
  \<open>None\<close> when the promise rejects; the rejection is caught inside the loop body, before
  \<open>ctx.save()\<close>, and the layer's name is logged to the console.
\<close>

fun drawLayers ::
  "(string \<Rightarrow> HTMLImage option) \<Rightarrow> Layer list \<Rightarrow> Ctx \<times> string list \<Rightarrow> Ctx \<times> string list" where
  "drawLayers loadImage [] s = s"
| "drawLayers loadImage (layer # rest) s =
     (if \<not> l_visible layer then drawLayers loadImage rest s
      else case loadImage (l_src layer) of
             None \<Rightarrow> drawLayers loadImage rest (fst s, snd s @ [l_name layer])
           | Some img \<Rightarrow>
               (let c1 = ctx_save (fst s);
                    cx = l_x layer + l_width layer / 2;
                    cy = l_y layer + l_height layer / 2;
                    c2 = ctx_translate cx cy c1;
                    c3 = ctx_rotate ((l_rotation layer * pi) / 180) c2;
                    c4 = ctx_scale (l_scale layer) (l_scale layer) c3;
                    c5 = ctx_drawImage img (- l_width layer / 2) (- l_height layer / 2)
                           (l_width layer) (l_height layer) c4;
                    c6 = ctx_restore c5
                in drawLayers loadImage rest (c6, snd s)))"

record PngFile =
  png_name :: string
  png_width :: real
  png_height :: real
  png_content :: "DrawCmd list"

text \<open>
  The outcome of one click on the download button: nothing at all; the promise of the
  background rejected (nothing is drawn and no file is made); or a file is downloaded,
  with the lines logged to the console on the way.
\<close>

datatype DownloadResult = NoOp | BackgroundRejected | Downloaded PngFile "string list"

text \<open>
  \<open>handleDownload\<close>. \<open>canvasRef\<close> is the \<open>(offsetWidth, offsetHeight)\<close> of the element the
  ref points to, \<open>None\<close> when the ref is null; \<open>ctxAvailable\<close> says whether
  \<open>getContext('2d')\<close> returned a context. \<open>!state.backgroundSrc\<close> holds for \<open>null\<close> and for
  the empty string. The handler reads the state and never updates it.
\<close>

definition handleDownload ::
  "(real \<times> real) option \<Rightarrow> bool \<Rightarrow> (string \<Rightarrow> HTMLImage option) \<Rightarrow> EditorState
     \<Rightarrow> DownloadResult" where
  "handleDownload canvasRef ctxAvailable loadImage st =
     (if canvasRef = None \<or> backgroundSrc st = None \<or> backgroundSrc st = Some [] then NoOp
      else
       (let width = fst (the canvasRef);
            height = snd (the canvasRef)
        in if \<not> ctxAvailable then NoOp
           else case loadImage (the (backgroundSrc st)) of
                  None \<Rightarrow> BackgroundRejected
                | Some bg \<Rightarrow>
                   (let ctx = \<lparr>ctm = identityMatrix, saved = [], drawn = []\<rparr>;
                        ctx1 = ctx_drawImage bg 0 0 width height ctx;
                        result = drawLayers loadImage (layers st) (ctx1, [])
                    in Downloaded
                         \<lparr>png_name = ''comfyui-composite.png'', png_width = width,
                          png_height = height, png_content = drawn (fst result)\<rparr>
                         (snd result))))"

section \<open>The canvas element and the live preview (the render of Editor.tsx)\<close>

text \<open>
  The \<open>onload\<close> callback of the Editor's effect on \<open>backgroundSrc\<close> records the natural
  size of the background.
\<close>

definition backgroundLoaded :: "HTMLImage \<Rightarrow> EditorLocal \<Rightarrow> EditorLocal" where
  "backgroundLoaded img ed = ed\<lparr>bgSize := (naturalWidth img, naturalHeight img)\<rparr>"

text \<open>
  The width and height the Editor's render puts in the style of the element behind
  \<open>canvasRef\<close>: the recorded background size when there is a background, 800 by 600
  otherwise.
\<close>

definition canvasStyleSize :: "EditorState \<Rightarrow> EditorLocal \<Rightarrow> real \<times> real" where
  "canvasStyleSize st ed =
     (if backgroundSrc st \<noteq> None \<and> backgroundSrc st \<noteq> Some [] then bgSize ed
      else (800, 600))"

datatype TransformFunction = CssRotate real | CssScale real

record LayerStyle =
  css_left :: real
  css_top :: real
  css_width :: real
  css_height :: real
  css_transform :: "TransformFunction list"

text \<open>The style object of a layer's element; \<open>transformOrigin\<close> is always the centre.\<close>

definition layerStyle :: "Layer \<Rightarrow> LayerStyle" where
  "layerStyle layer =
     \<lparr>css_left = l_x layer, css_top = l_y layer,
      css_width = l_width layer, css_height = l_height layer,
      css_transform = [CssRotate (l_rotation layer), CssScale (l_scale layer)]\<rparr>"

text \<open>
  CSS Transforms: the matrix of an element is the translation to its transform origin,
  times the transform functions from left to right, times the translation back; the box
  itself sits at \<open>(left, top)\<close>. \<open>previewPoint\<close> is where the point at offset \<open>(u, v)\<close> of
  the element's box is shown.
\<close>

fun functionMatrix :: "TransformFunction \<Rightarrow> Matrix" where
  "functionMatrix (CssRotate deg) = rotation (deg * pi / 180)"
| "functionMatrix (CssScale k) = scaling k k"

definition cssMatrix :: "LayerStyle \<Rightarrow> Matrix" where
  "cssMatrix s =
     (let ox = css_width s / 2; oy = css_height s / 2
      in matMul (translation (css_left s + ox) (css_top s + oy))
           (matMul (foldl matMul identityMatrix (map functionMatrix (css_transform s)))
              (translation (- ox) (- oy))))"

definition previewPoint :: "LayerStyle \<Rightarrow> real \<times> real \<Rightarrow> real \<times> real" where
  "previewPoint s p = applyMatrix (cssMatrix s) p"

text \<open>
  The frame and the command of one layer in the words of the specification: translate
  to the visual centre, rotate by the rotation in radians, scale uniformly, then draw
  the image at its intrinsic size centred on the origin.
\<close>

definition layerFrame :: "Layer \<Rightarrow> Matrix" where
  "layerFrame l =
     matMul (matMul (translation (l_x l + l_width l / 2) (l_y l + l_height l / 2))
                    (rotation (toRad (l_rotation l))))
            (scaling (l_scale l) (l_scale l))"

definition layerCommand :: "(string \<Rightarrow> HTMLImage option) \<Rightarrow> Layer \<Rightarrow> DrawCmd" where
  "layerCommand loadImage l =
     DrawImage (the (loadImage (l_src l))) (layerFrame l)
       (- (l_width l / 2)) (- (l_height l / 2)) (l_width l) (l_height l)"

definition drawable :: "(string \<Rightarrow> HTMLImage option) \<Rightarrow> Layer \<Rightarrow> bool" where
  "drawable loadImage l \<longleftrightarrow> l_visible l \<and> loadImage (l_src l) \<noteq> None"

definition undecodable :: "(string \<Rightarrow> HTMLImage option) \<Rightarrow> Layer \<Rightarrow> bool" where
  "undecodable loadImage l \<longleftrightarrow> l_visible l \<and> loadImage (l_src l) = None"

section \<open>The events of the editor\<close>

definition handleBackgroundClick :: "EditorState \<times> EditorLocal \<Rightarrow> EditorState \<times> EditorLocal" where
  "handleBackgroundClick se =
     ((if \<not> isDraggingRef (snd se) then handleSelectLayer None (fst se) else fst se),
      (snd se)\<lparr>isDraggingRef := False\<rparr>)"

text \<open>
  \<open>handleWheel\<close>: the scroll-wheel zoom of the selected layer, clamped to \<open>[0.1, 5]\<close>.
\<close>

definition handleWheel :: "real \<Rightarrow> EditorState \<Rightarrow> EditorState" where
  "handleWheel deltaY st =
     (if selectedLayerId st = None \<or> selectedLayerId st = Some [] then st
      else case find (\<lambda>l. l_id l = the (selectedLayerId st)) (layers st) of
             None \<Rightarrow> st
           | Some layer \<Rightarrow>
               (let zoomSensitivity = 0.001;
                    newScale = max 0.1 (min 5 (l_scale layer - deltaY * zoomSensitivity))
                in handleUpdateLayer (the (selectedLayerId st))
                     (noUpdates\<lparr>u_scale := Some newScale\<rparr>) st))"

text \<open>
  Everything that changes the state of the editor, as an event: the uploads, the list
  (select, delete, toggle), the inputs of the side panel (the scale slider, the rotation
  slider, the two position fields, each an \<open>onUpdateLayer\<close> of one field with the parsed
  value), the pointer and wheel handlers, and the load callback of the background. The
  scale slider is a range input with \<open>min="0.1"\<close> and \<open>max="3.0"\<close>, so the value it hands
  over lies between them: that is what \<open>wellFormed\<close> says.
\<close>

datatype Event =
    UploadBackground string
  | ForegroundLoaded string string string real real
  | SelectLayer "string option"
  | DeleteLayer string
  | ToggleVisibility string
  | ScaleInput string real
  | RotationInput string real
  | PosXInput string real
  | PosYInput string real
  | PointerDown "(real \<times> real) option" PointerEvent string DragMode "ResizeHandle option"
  | PointerMove "(real \<times> real) option" PointerEvent
  | PointerUp
  | BackgroundClick
  | Wheel real
  | BackgroundLoaded HTMLImage

fun wellFormed :: "Event \<Rightarrow> bool" where
  "wellFormed (ScaleInput i v) \<longleftrightarrow> 0.1 \<le> v \<and> v \<le> 3"
| "wellFormed _ \<longleftrightarrow> True"

fun dispatch :: "Event \<Rightarrow> EditorState \<times> EditorLocal \<Rightarrow> EditorState \<times> EditorLocal" where
  "dispatch (UploadBackground url) se = (handleUploadBackground url (fst se), snd se)"
| "dispatch (ForegroundLoaded newId url fileName w h) se =
     (foregroundLoaded newId url fileName w h (fst se), snd se)"
| "dispatch (SelectLayer i) se = (handleSelectLayer i (fst se), snd se)"
| "dispatch (DeleteLayer i) se = (handleDeleteLayer i (fst se), snd se)"
| "dispatch (ToggleVisibility i) se = (handleToggleVisibility i (fst se), snd se)"
| "dispatch (ScaleInput i v) se =
     (handleUpdateLayer i (noUpdates\<lparr>u_scale := Some v\<rparr>) (fst se), snd se)"
| "dispatch (RotationInput i v) se =
     (handleUpdateLayer i (noUpdates\<lparr>u_rotation := Some v\<rparr>) (fst se), snd se)"
| "dispatch (PosXInput i v) se =
     (handleUpdateLayer i (noUpdates\<lparr>u_x := Some v\<rparr>) (fst se), snd se)"
| "dispatch (PosYInput i v) se =
     (handleUpdateLayer i (noUpdates\<lparr>u_y := Some v\<rparr>) (fst se), snd se)"
| "dispatch (PointerDown rect e layerId mode handle) se =
     handlePointerDown rect e layerId mode handle se"
| "dispatch (PointerMove rect e) se = handlePointerMove rect e se"
| "dispatch PointerUp se = handlePointerUp se"
| "dispatch BackgroundClick se = handleBackgroundClick se"
| "dispatch (Wheel deltaY) se = (handleWheel deltaY (fst se), snd se)"
| "dispatch (BackgroundLoaded img) se = (fst se, backgroundLoaded img (snd se))"

definition run :: "Event list \<Rightarrow> EditorState \<times> EditorLocal" where
  "run es = fold dispatch es (initialState, initialLocal)"

text \<open>
  Every layer, and the layer snapshot of the drag session if there is one, has a scale
  of at least 0.05.
\<close>

definition scalesFloored :: "EditorState \<times> EditorLocal \<Rightarrow> bool" where
  "scalesFloored se \<longleftrightarrow>
     list_all (\<lambda>l. 0.05 \<le> l_scale l) (layers (fst se)) \<and>
     (case dragState (snd se) of
        None \<Rightarrow> True
      | Some ds \<Rightarrow> 0.05 \<le> l_scale (ds_startLayerState ds))"

text \<open>
  The divisors of the two divisions of the resize branch of \<open>handlePointerMove\<close>, in the
  order in which it evaluates them once past its guards:
  \<open>currDist / dragState.startDist\<close> and \<open>newScale / startLayerState.scale\<close>.
\<close>

definition resizeDivisors :: "DragState \<Rightarrow> real list" where
  "resizeDivisors ds = [the (ds_startDist ds), l_scale (ds_startLayerState ds)]"

section \<open>The scenario of the specification\<close>

text \<open>
  A background, and one layer of intrinsic size 200 by 100 as the upload creates it:
  at (50, 50), scale 1, rotation 0.
\<close>

definition scenarioState :: EditorState where
  "scenarioState =
     foregroundLoaded ''a'' ''blob:fg'' ''fg.png'' 200 100
       (handleUploadBackground ''blob:bg'' initialState)"

definition pointerAt :: "real \<Rightarrow> real \<Rightarrow> PointerEvent" where
  "pointerAt px py = \<lparr>clientX = px, clientY = py\<rparr>"

text \<open>
  The rotate gesture of the scenario: the pointer goes down at (200, 100), at angle
  \<open>atan2(0, 50)\<close> about the centre (150, 100), moves to (200, 150), at angle
  \<open>atan2(50, 50)\<close>, and is released. \<open>seResize\<close> is a resize gesture from the \<open>se\<close>
  handle: pointer down at one point, one move to another.
\<close>

definition afterRotate :: "EditorState \<times> EditorLocal" where
  "afterRotate =
     handlePointerUp
       (handlePointerMove None (pointerAt 200 150)
          (handlePointerDown None (pointerAt 200 100) ''a'' Rotate None
             (scenarioState, initialLocal)))"

definition seResizeStart :: "real \<times> real \<Rightarrow> EditorState \<times> EditorLocal \<Rightarrow> EditorState \<times> EditorLocal" where
  "seResizeStart p se =
     handlePointerDown None (pointerAt (fst p) (snd p)) ''a'' Resize (Some SE) se"

definition seResize ::
  "real \<times> real \<Rightarrow> real \<times> real \<Rightarrow> EditorState \<times> EditorLocal \<Rightarrow> EditorState \<times> EditorLocal" where
  "seResize p q se = handlePointerMove None (pointerAt (fst q) (snd q)) (seResizeStart p se)"

definition scenarioImages :: "string \<Rightarrow> HTMLImage option" where
  "scenarioImages s =
     (if s = ''blob:bg'' then Some \<lparr>img_src = s, naturalWidth = 800, naturalHeight = 600\<rparr>
      else if s = ''blob:fg'' then Some \<lparr>img_src = s, naturalWidth = 200, naturalHeight = 100\<rparr>
      else None)"

text \<open>
  Two backgrounds, of 1024 by 768 and of 640 by 480; and a state with a second layer that
  cannot be decoded.
\<close>

definition wideImages :: "string \<Rightarrow> HTMLImage option" where
  "wideImages s =
     (if s = ''blob:bg'' then Some \<lparr>img_src = s, naturalWidth = 1024, naturalHeight = 768\<rparr>
      else if s = ''blob:bg2'' then Some \<lparr>img_src = s, naturalWidth = 640, naturalHeight = 480\<rparr>
      else None)"

definition brokenState :: EditorState where
  "brokenState = foregroundLoaded ''b'' ''blob:gone'' ''gone.png'' 10 10 scenarioState"


section \<open>Move gesture\<close>

lemma spread_xy:
  "spread l (noUpdates\<lparr>u_x := Some a, u_y := Some b\<rparr>) = l\<lparr>l_x := a, l_y := b\<rparr>"
  by (simp add: spread_def noUpdates_def)

lemma scenarioState_eq:
  "scenarioState =
     \<lparr>backgroundSrc = Some ''blob:bg'',
      layers = [\<lparr>l_id = ''a'', l_src = ''blob:fg'', l_name = ''fg.png'', l_x = 50, l_y = 50,
                 l_scale = 1, l_rotation = 0, l_width = 200, l_height = 100,
                 l_visible = True\<rparr>],
      selectedLayerId = None, canvasScale = 1\<rparr>"
  by (simp add: scenarioState_def foregroundLoaded_def handleUploadBackground_def
      initialState_def)

lemma scenario_down_move:
  "handlePointerDown None (pointerAt 120 80) ''a'' Move None (scenarioState, initialLocal) =
     (scenarioState\<lparr>selectedLayerId := Some ''a''\<rparr>,
      initialLocal\<lparr>dragState := Some \<lparr>ds_mode = Move, ds_handle = None,
          ds_startX = 120, ds_startY = 80,
          ds_startLayerState = hd (layers scenarioState),
          ds_centerWorldStart = (150, 100),
          ds_pivotWorld = None, ds_startDist = None, ds_startAngle = None\<rparr>\<rparr>)"
  by (simp add: handlePointerDown_def scenarioState_eq initialLocal_def pointerAt_def
      getLocalCoords_def handleSelectLayer_def Let_def)

text \<open>
  C7. During a move gesture a pointer-move sets, on the selected layer, \<open>x\<close> to the
  snapshot \<open>x\<close> plus the pointer's horizontal displacement since the gesture began and
  \<open>y\<close> likewise; no other field of that layer and no other layer changes, nor do the
  background, the selection or the drag session. With zero net displacement \<open>x\<close> and \<open>y\<close>
  are the snapshot's, whatever the rotation and scale.
\<close>

theorem move_update:
  assumes "dragState ed = Some ds" and "ds_mode ds = Move"
    and "selectedLayerId st = Some sel" and "sel \<noteq> []"
  shows "handlePointerMove rect e (st, ed) =
           (st\<lparr>layers := map (\<lambda>l. if l_id l = sel
                  then l\<lparr>l_x := l_x (ds_startLayerState ds)
                                 + (fst (getLocalCoords rect e) - ds_startX ds),
                         l_y := l_y (ds_startLayerState ds)
                                 + (snd (getLocalCoords rect e) - ds_startY ds)\<rparr>
                  else l) (layers st)\<rparr>,
            ed\<lparr>isDraggingRef := True\<rparr>)
       \<and> (getLocalCoords rect e = (ds_startX ds, ds_startY ds) \<longrightarrow>
            layers (fst (handlePointerMove rect e (st, ed))) =
              map (\<lambda>l. if l_id l = sel
                  then l\<lparr>l_x := l_x (ds_startLayerState ds),
                         l_y := l_y (ds_startLayerState ds)\<rparr>
                  else l) (layers st))"
  using assms
  by (simp add: handlePointerMove_def handleUpdateLayer_def spread_xy Let_def)

theorem move_update_witness:
  "map (\<lambda>l. (l_x l, l_y l, l_scale l, l_rotation l, l_width l, l_height l))
     (layers (fst (handlePointerMove None (pointerAt 127 75)
        (handlePointerDown None (pointerAt 120 80) ''a'' Move None
           (scenarioState, initialLocal)))))
   = [(57, 45, 1, 0, 200, 100)]
   \<and> map (\<lambda>l. (l_x l, l_y l))
     (layers (fst (handlePointerMove None (pointerAt 120 80)
        (handlePointerDown None (pointerAt 120 80) ''a'' Move None
           (scenarioState, initialLocal)))))
   = [(50, 50)]"
  unfolding scenario_down_move
  using move_update [of "initialLocal\<lparr>dragState := Some \<lparr>ds_mode = Move, ds_handle = None,
          ds_startX = 120, ds_startY = 80,
          ds_startLayerState = hd (layers scenarioState),
          ds_centerWorldStart = (150, 100),
          ds_pivotWorld = None, ds_startDist = None, ds_startAngle = None\<rparr>\<rparr>" _
      "scenarioState\<lparr>selectedLayerId := Some ''a''\<rparr>" "''a''" None "pointerAt 127 75"]
     move_update [of "initialLocal\<lparr>dragState := Some \<lparr>ds_mode = Move, ds_handle = None,
          ds_startX = 120, ds_startY = 80,
          ds_startLayerState = hd (layers scenarioState),
          ds_centerWorldStart = (150, 100),
          ds_pivotWorld = None, ds_startDist = None, ds_startAngle = None\<rparr>\<rparr>" _
      "scenarioState\<lparr>selectedLayerId := Some ''a''\<rparr>" "''a''" None "pointerAt 120 80"]
  by (simp add: scenarioState_eq initialLocal_def pointerAt_def getLocalCoords_def)

section \<open>Export\<close>

lemma ctx_layer_step:
  "ctx_restore (ctx_drawImage img dx dy dw dh
      (ctx_scale sx sy (ctx_rotate rad (ctx_translate tx ty (ctx_save c))))) =
   c\<lparr>drawn := drawn c @
      [DrawImage img
         (matMul (matMul (matMul (ctm c) (translation tx ty)) (rotation rad)) (scaling sx sy))
         dx dy dw dh]\<rparr>"
  by (simp add: ctx_restore_def ctx_drawImage_def ctx_scale_def ctx_rotate_def
      ctx_translate_def ctx_save_def)

lemma matMul_identity_left: "matMul identityMatrix m = m"
  by (simp add: matMul_def identityMatrix_def)

lemma drawLayers_spec:
  "ctm c = identityMatrix \<Longrightarrow>
   drawLayers loadImage ls (c, out) =
     (c\<lparr>drawn := drawn c @ map (layerCommand loadImage) (filter (drawable loadImage) ls)\<rparr>,
      out @ map l_name (filter (undecodable loadImage) ls))"
proof (induction ls arbitrary: c out)
  case Nil
  then show ?case by simp
next
  case (Cons l ls)
  show ?case
  proof (cases "l_visible l")
    case False
    then show ?thesis using Cons by (simp add: drawable_def undecodable_def)
  next
    case True
    show ?thesis
    proof (cases "loadImage (l_src l)")
      case None
      then show ?thesis using True Cons by (simp add: drawable_def undecodable_def)
    next
      case (Some img)
      then show ?thesis using True Cons.prems
        by (simp add: Let_def ctx_layer_step Cons.IH drawable_def undecodable_def
            layerCommand_def layerFrame_def matMul_identity_left toRad_def)
    qed
  qed
qed

lemma handleDownload_spec:
  assumes "backgroundSrc st = Some b" and "b \<noteq> []" and "loadImage b = Some bg"
  shows "handleDownload (Some (w, h)) True loadImage st =
     Downloaded
       \<lparr>png_name = ''comfyui-composite.png'', png_width = w, png_height = h,
        png_content = DrawImage bg identityMatrix 0 0 w h
           # map (layerCommand loadImage) (filter (drawable loadImage) (layers st))\<rparr>
       (map l_name (filter (undecodable loadImage) (layers st)))"
  using assms
  by (simp add: handleDownload_def Let_def drawLayers_spec ctx_drawImage_def)

lemma layerFrame_entries:
  "layerFrame l =
     \<lparr>m_a = l_scale l * cos (toRad (l_rotation l)),
      m_b = l_scale l * sin (toRad (l_rotation l)),
      m_c = - (l_scale l * sin (toRad (l_rotation l))),
      m_d = l_scale l * cos (toRad (l_rotation l)),
      m_e = l_x l + l_width l / 2,
      m_f = l_y l + l_height l / 2\<rparr>"
  by (simp add: layerFrame_def matMul_def translation_def rotation_def scaling_def mult.commute)

lemma export_matches_preview:
  "drawnPoint (layerCommand loadImage l) p = previewPoint (layerStyle l) p"
  by (simp add: layerCommand_def layerFrame_entries previewPoint_def cssMatrix_def
      layerStyle_def applyMatrix_def matMul_def translation_def rotation_def scaling_def
      identityMatrix_def toRad_def Let_def algebra_simps)


lemma scenarioImages_simps:
  "scenarioImages ''blob:bg'' = Some \<lparr>img_src = ''blob:bg'', naturalWidth = 800, naturalHeight = 600\<rparr>"
  "scenarioImages ''blob:fg'' = Some \<lparr>img_src = ''blob:fg'', naturalWidth = 200, naturalHeight = 100\<rparr>"
  "scenarioImages ''blob:gone'' = None"
  by (simp_all add: scenarioImages_def)

text \<open>
  C1. When the export passes its guards, the file holds the background under the identity
  transform followed by one command per visible layer whose image decodes, in list
  order. Each command draws the layer's image over the rectangle from
  \<open>(-width/2, -height/2)\<close> of size \<open>width\<close> by \<open>height\<close> under the frame
  translate-to-centre, rotate (degrees to radians), scale, built from the identity for
  every layer (nothing accumulates from one layer to the next). Every point of the
  image lands where the preview's element (left = x, top = y, transform
  \<open>rotate(rotation) scale(scale)\<close>, origin at the centre) shows it.
\<close>

theorem export_pipeline:
  assumes "backgroundSrc st = Some b" and "b \<noteq> []" and "loadImage b = Some bg"
  shows "handleDownload (Some (w, h)) True loadImage st =
     Downloaded
       \<lparr>png_name = ''comfyui-composite.png'', png_width = w, png_height = h,
        png_content = DrawImage bg identityMatrix 0 0 w h
           # map (\<lambda>l. DrawImage (the (loadImage (l_src l)))
                   \<lparr>m_a = l_scale l * cos (l_rotation l * pi / 180),
                    m_b = l_scale l * sin (l_rotation l * pi / 180),
                    m_c = - (l_scale l * sin (l_rotation l * pi / 180)),
                    m_d = l_scale l * cos (l_rotation l * pi / 180),
                    m_e = l_x l + l_width l / 2,
                    m_f = l_y l + l_height l / 2\<rparr>
                   (- (l_width l / 2)) (- (l_height l / 2)) (l_width l) (l_height l))
               (filter (\<lambda>l. l_visible l \<and> loadImage (l_src l) \<noteq> None) (layers st))\<rparr>
       (map l_name (filter (\<lambda>l. l_visible l \<and> loadImage (l_src l) = None) (layers st)))
   \<and> (\<forall>l p. layerCommand loadImage l =
          DrawImage (the (loadImage (l_src l)))
                   \<lparr>m_a = l_scale l * cos (l_rotation l * pi / 180),
                    m_b = l_scale l * sin (l_rotation l * pi / 180),
                    m_c = - (l_scale l * sin (l_rotation l * pi / 180)),
                    m_d = l_scale l * cos (l_rotation l * pi / 180),
                    m_e = l_x l + l_width l / 2,
                    m_f = l_y l + l_height l / 2\<rparr>
                   (- (l_width l / 2)) (- (l_height l / 2)) (l_width l) (l_height l)
        \<and> drawnPoint (layerCommand loadImage l) p = previewPoint (layerStyle l) p)"
proof -
  have cmd: "layerCommand loadImage = (\<lambda>l. DrawImage (the (loadImage (l_src l)))
                   \<lparr>m_a = l_scale l * cos (l_rotation l * pi / 180),
                    m_b = l_scale l * sin (l_rotation l * pi / 180),
                    m_c = - (l_scale l * sin (l_rotation l * pi / 180)),
                    m_d = l_scale l * cos (l_rotation l * pi / 180),
                    m_e = l_x l + l_width l / 2,
                    m_f = l_y l + l_height l / 2\<rparr>
                   (- (l_width l / 2)) (- (l_height l / 2)) (l_width l) (l_height l))"
    by (rule ext) (simp add: layerCommand_def layerFrame_entries toRad_def)
  have sel: "drawable loadImage = (\<lambda>l. l_visible l \<and> loadImage (l_src l) \<noteq> None)"
    "undecodable loadImage = (\<lambda>l. l_visible l \<and> loadImage (l_src l) = None)"
    by (rule ext, simp add: drawable_def undecodable_def)+
  have dl: "handleDownload (Some (w, h)) True loadImage st =
     Downloaded
       \<lparr>png_name = ''comfyui-composite.png'', png_width = w, png_height = h,
        png_content = DrawImage bg identityMatrix 0 0 w h
           # map (layerCommand loadImage) (filter (drawable loadImage) (layers st))\<rparr>
       (map l_name (filter (undecodable loadImage) (layers st)))"
    using assms by (rule handleDownload_spec)
  show ?thesis
  proof (intro conjI allI)
    show "handleDownload (Some (w, h)) True loadImage st =
     Downloaded
       \<lparr>png_name = ''comfyui-composite.png'', png_width = w, png_height = h,
        png_content = DrawImage bg identityMatrix 0 0 w h
           # map (\<lambda>l. DrawImage (the (loadImage (l_src l)))
                   \<lparr>m_a = l_scale l * cos (l_rotation l * pi / 180),
                    m_b = l_scale l * sin (l_rotation l * pi / 180),
                    m_c = - (l_scale l * sin (l_rotation l * pi / 180)),
                    m_d = l_scale l * cos (l_rotation l * pi / 180),
                    m_e = l_x l + l_width l / 2,
                    m_f = l_y l + l_height l / 2\<rparr>
                   (- (l_width l / 2)) (- (l_height l / 2)) (l_width l) (l_height l))
               (filter (\<lambda>l. l_visible l \<and> loadImage (l_src l) \<noteq> None) (layers st))\<rparr>
       (map l_name (filter (\<lambda>l. l_visible l \<and> loadImage (l_src l) = None) (layers st)))"
      unfolding dl sel cmd ..
  next
    fix l p
    show "layerCommand loadImage l =
          DrawImage (the (loadImage (l_src l)))
                   \<lparr>m_a = l_scale l * cos (l_rotation l * pi / 180),
                    m_b = l_scale l * sin (l_rotation l * pi / 180),
                    m_c = - (l_scale l * sin (l_rotation l * pi / 180)),
                    m_d = l_scale l * cos (l_rotation l * pi / 180),
                    m_e = l_x l + l_width l / 2,
                    m_f = l_y l + l_height l / 2\<rparr>
                   (- (l_width l / 2)) (- (l_height l / 2)) (l_width l) (l_height l)"
      unfolding cmd ..
  next
    fix l p
    show "drawnPoint (layerCommand loadImage l) p = previewPoint (layerStyle l) p"
      by (rule export_matches_preview)
  qed
qed

theorem export_pipeline_witness:
  "handleDownload (Some (800, 600)) True scenarioImages scenarioState =
     Downloaded
       \<lparr>png_name = ''comfyui-composite.png'', png_width = 800, png_height = 600,
        png_content =
          [DrawImage \<lparr>img_src = ''blob:bg'', naturalWidth = 800, naturalHeight = 600\<rparr>
             identityMatrix 0 0 800 600,
           DrawImage \<lparr>img_src = ''blob:fg'', naturalWidth = 200, naturalHeight = 100\<rparr>
             \<lparr>m_a = 1, m_b = 0, m_c = 0, m_d = 1, m_e = 150, m_f = 100\<rparr>
             (- 100) (- 50) 200 100]\<rparr> []"
  using export_pipeline [of scenarioState "''blob:bg''" scenarioImages
      "\<lparr>img_src = ''blob:bg'', naturalWidth = 800, naturalHeight = 600\<rparr>" 800 600]
  by (simp add: scenarioState_eq scenarioImages_simps)


subsection \<open>Size of the exported raster\<close>

lemma wide_export:
  "handleDownload (Some (w, h)) True wideImages (handleUploadBackground ''blob:bg'' initialState) =
     Downloaded
       \<lparr>png_name = ''comfyui-composite.png'', png_width = w, png_height = h,
        png_content =
          [DrawImage \<lparr>img_src = ''blob:bg'', naturalWidth = 1024, naturalHeight = 768\<rparr>
             identityMatrix 0 0 w h]\<rparr> []"
  by (simp add: handleDownload_def handleUploadBackground_def initialState_def
      wideImages_def ctx_drawImage_def Let_def)

lemma replaced_export:
  "handleDownload (Some (w, h)) True wideImages
       (handleUploadBackground ''blob:bg2'' (handleUploadBackground ''blob:bg'' initialState)) =
     Downloaded
       \<lparr>png_name = ''comfyui-composite.png'', png_width = w, png_height = h,
        png_content =
          [DrawImage \<lparr>img_src = ''blob:bg2'', naturalWidth = 640, naturalHeight = 480\<rparr>
             identityMatrix 0 0 w h]\<rparr> []"
  by (simp add: handleDownload_def handleUploadBackground_def initialState_def
      wideImages_def ctx_drawImage_def Let_def)

text \<open>
  C5. The export takes the size of its raster from the canvas element and never from the
  background it decodes. Right after the upload of a background of 1024 by 768, before
  the Editor's load callback has run, the element is styled 800 by 600 and, laid out at
  that size, gives a raster of 800 by 600. When that background is replaced by one of
  640 by 480 and the callback of the first runs after the callback of the second, the
  element is styled 1024 by 768 and so is the raster.
\<close>

theorem export_size_mismatch:
  "canvasStyleSize (handleUploadBackground ''blob:bg'' initialState) initialLocal = (800, 600)
   \<and> handleDownload (Some (800, 600)) True wideImages
         (handleUploadBackground ''blob:bg'' initialState) =
       Downloaded
         \<lparr>png_name = ''comfyui-composite.png'', png_width = 800, png_height = 600,
          png_content =
            [DrawImage \<lparr>img_src = ''blob:bg'', naturalWidth = 1024, naturalHeight = 768\<rparr>
               identityMatrix 0 0 800 600]\<rparr> []
   \<and> wideImages (the (backgroundSrc (handleUploadBackground ''blob:bg'' initialState))) =
       Some \<lparr>img_src = ''blob:bg'', naturalWidth = 1024, naturalHeight = 768\<rparr>
   \<and> canvasStyleSize
         (handleUploadBackground ''blob:bg2'' (handleUploadBackground ''blob:bg'' initialState))
         (backgroundLoaded \<lparr>img_src = ''blob:bg'', naturalWidth = 1024, naturalHeight = 768\<rparr>
            (backgroundLoaded \<lparr>img_src = ''blob:bg2'', naturalWidth = 640, naturalHeight = 480\<rparr>
               initialLocal))
       = (1024, 768)
   \<and> handleDownload (Some (1024, 768)) True wideImages
         (handleUploadBackground ''blob:bg2'' (handleUploadBackground ''blob:bg'' initialState)) =
       Downloaded
         \<lparr>png_name = ''comfyui-composite.png'', png_width = 1024, png_height = 768,
          png_content =
            [DrawImage \<lparr>img_src = ''blob:bg2'', naturalWidth = 640, naturalHeight = 480\<rparr>
               identityMatrix 0 0 1024 768]\<rparr> []
   \<and> wideImages (the (backgroundSrc
         (handleUploadBackground ''blob:bg2'' (handleUploadBackground ''blob:bg'' initialState)))) =
       Some \<lparr>img_src = ''blob:bg2'', naturalWidth = 640, naturalHeight = 480\<rparr>"
  unfolding wide_export replaced_export
  by (simp add: canvasStyleSize_def backgroundLoaded_def handleUploadBackground_def
      initialState_def initialLocal_def wideImages_def)


subsection \<open>Hidden layers\<close>

lemma handleDownload_layers_cong:
  assumes "backgroundSrc st = backgroundSrc st'"
    and "drawLayers loadImage (layers st) = drawLayers loadImage (layers st')"
  shows "handleDownload canvasRef ctxAvailable loadImage st =
         handleDownload canvasRef ctxAvailable loadImage st'"
  unfolding handleDownload_def assms ..

lemma drawLayers_hidden:
  assumes "\<forall>l\<in>set ls. l_id l = i \<longrightarrow> l_visible l"
  shows "drawLayers loadImage
           (map (\<lambda>l. if l_id l = i then l\<lparr>l_visible := \<not> l_visible l\<rparr> else l) ls) s =
         drawLayers loadImage (filter (\<lambda>l. l_id l \<noteq> i) ls) s"
  using assms
proof (induction ls arbitrary: s)
  case Nil
  then show ?case by simp
next
  case (Cons l ls)
  then have ih: "\<And>s. drawLayers loadImage
           (map (\<lambda>l. if l_id l = i then l\<lparr>l_visible := \<not> l_visible l\<rparr> else l) ls) s =
         drawLayers loadImage (filter (\<lambda>l. l_id l \<noteq> i) ls) s"
    by simp
  show ?case
  proof (cases "l_id l = i")
    case True
    with Cons.prems have "l_visible l" by simp
    with True show ?thesis by (simp add: ih)
  next
    case False
    then show ?thesis by (simp add: ih Let_def split: option.split)
  qed
qed

lemma toggle_off:
  assumes "\<forall>l\<in>set ls. l_id l = i \<longrightarrow> l_visible l"
  shows "map (\<lambda>l. if l_id l = i then l\<lparr>l_visible := \<not> l_visible l\<rparr> else l) ls =
         map (\<lambda>l. if l_id l = i then l\<lparr>l_visible := False\<rparr> else l) ls"
  using assms by simp

text \<open>
  C8. When every layer carrying the identifier is visible, so that the toggle turns
  visibility off, the export after the toggle equals the export after deleting the
  layer; after the toggle the layer list is the old one with only the visible flag of
  that layer cleared. The export reads the state and leaves it as it is.
\<close>

theorem hidden_layer_export:
  assumes "\<forall>l\<in>set (layers st). l_id l = i \<longrightarrow> l_visible l"
  shows "handleDownload canvasRef ctxAvailable loadImage (handleToggleVisibility i st) =
         handleDownload canvasRef ctxAvailable loadImage (handleDeleteLayer i st)
   \<and> handleToggleVisibility i st =
       st\<lparr>layers := map (\<lambda>l. if l_id l = i then l\<lparr>l_visible := False\<rparr> else l) (layers st)\<rparr>"
proof
  have "drawLayers loadImage (layers (handleToggleVisibility i st)) =
        drawLayers loadImage (layers (handleDeleteLayer i st))"
    using drawLayers_hidden [OF assms]
    by (simp add: handleToggleVisibility_def handleDeleteLayer_def fun_eq_iff)
  then show "handleDownload canvasRef ctxAvailable loadImage (handleToggleVisibility i st) =
         handleDownload canvasRef ctxAvailable loadImage (handleDeleteLayer i st)"
    by (intro handleDownload_layers_cong)
      (simp_all add: handleToggleVisibility_def handleDeleteLayer_def)
next
  show "handleToggleVisibility i st =
       st\<lparr>layers := map (\<lambda>l. if l_id l = i then l\<lparr>l_visible := False\<rparr> else l) (layers st)\<rparr>"
    using toggle_off [OF assms] by (simp add: handleToggleVisibility_def)
qed

theorem hidden_layer_export_witness:
  "handleDownload (Some (800, 600)) True scenarioImages
         (handleToggleVisibility ''a'' scenarioState) =
       handleDownload (Some (800, 600)) True scenarioImages
         (handleDeleteLayer ''a'' scenarioState)
   \<and> handleToggleVisibility ''a'' scenarioState =
       scenarioState\<lparr>layers :=
         map (\<lambda>l. if l_id l = ''a'' then l\<lparr>l_visible := False\<rparr> else l)
           (layers scenarioState)\<rparr>"
proof -
  have h: "\<forall>l\<in>set (layers scenarioState). l_id l = ''a'' \<longrightarrow> l_visible l"
    by (simp add: scenarioState_eq)
  from hidden_layer_export [OF h] show ?thesis by blast
qed

subsection \<open>Failures during export\<close>

lemma handleDownload_guards:
  "handleDownload None ctxAvailable loadImage st = NoOp"
  "backgroundSrc st = None \<Longrightarrow> handleDownload canvasRef ctxAvailable loadImage st = NoOp"
  "handleDownload canvasRef False loadImage st = NoOp"
  by (simp_all add: handleDownload_def Let_def)

lemma filter_decodable:
  "filter (drawable loadImage) (filter (\<lambda>l. loadImage (l_src l) \<noteq> None) ls) =
     filter (drawable loadImage) ls"
  "filter (undecodable loadImage) (filter (\<lambda>l. loadImage (l_src l) \<noteq> None) ls) = []"
  by (induction ls) (auto simp: drawable_def undecodable_def)

text \<open>
  C10. Without a canvas element, without a background source or without a drawing
  context the export is a no-op and makes no file. When the guards are passed and the
  background decodes, a file is downloaded: it holds the background and every visible
  layer that decodes, the names of the visible layers that fail to decode are logged,
  and the file is the one exported from the same state without the failing layers.
\<close>

theorem export_failure_isolation:
  "handleDownload None ctxAvailable loadImage st = NoOp
   \<and> (backgroundSrc st = None \<longrightarrow> handleDownload canvasRef ctxAvailable loadImage st = NoOp)
   \<and> handleDownload canvasRef False loadImage st = NoOp
   \<and> (backgroundSrc st = Some b \<and> b \<noteq> [] \<and> loadImage b = Some bg \<longrightarrow>
        handleDownload (Some (w, h)) True loadImage st =
          Downloaded
            \<lparr>png_name = ''comfyui-composite.png'', png_width = w, png_height = h,
             png_content = DrawImage bg identityMatrix 0 0 w h
               # map (layerCommand loadImage)
                   (filter (\<lambda>l. l_visible l \<and> loadImage (l_src l) \<noteq> None) (layers st))\<rparr>
            (map l_name (filter (\<lambda>l. l_visible l \<and> loadImage (l_src l) = None) (layers st)))
        \<and> handleDownload (Some (w, h)) True loadImage
             (st\<lparr>layers := filter (\<lambda>l. loadImage (l_src l) \<noteq> None) (layers st)\<rparr>) =
          Downloaded
            \<lparr>png_name = ''comfyui-composite.png'', png_width = w, png_height = h,
             png_content = DrawImage bg identityMatrix 0 0 w h
               # map (layerCommand loadImage)
                   (filter (\<lambda>l. l_visible l \<and> loadImage (l_src l) \<noteq> None) (layers st))\<rparr>
            [])"
proof -
  have sel: "(\<lambda>l. l_visible l \<and> loadImage (l_src l) \<noteq> None) = drawable loadImage"
    "(\<lambda>l. l_visible l \<and> loadImage (l_src l) = None) = undecodable loadImage"
    by (rule ext, simp add: drawable_def undecodable_def)+
  have ok: "handleDownload (Some (w, h)) True loadImage st' =
          Downloaded
            \<lparr>png_name = ''comfyui-composite.png'', png_width = w, png_height = h,
             png_content = DrawImage bg identityMatrix 0 0 w h
               # map (layerCommand loadImage) (filter (drawable loadImage) (layers st'))\<rparr>
            (map l_name (filter (undecodable loadImage) (layers st')))"
    if "backgroundSrc st' = Some b \<and> b \<noteq> [] \<and> loadImage b = Some bg" for st'
    using that handleDownload_spec [of st' b loadImage bg w h] by blast
  have kept: "handleDownload (Some (w, h)) True loadImage
             (st\<lparr>layers := filter (\<lambda>l. loadImage (l_src l) \<noteq> None) (layers st)\<rparr>) =
          Downloaded
            \<lparr>png_name = ''comfyui-composite.png'', png_width = w, png_height = h,
             png_content = DrawImage bg identityMatrix 0 0 w h
               # map (layerCommand loadImage) (filter (drawable loadImage) (layers st))\<rparr>
            []"
    if pre: "backgroundSrc st = Some b \<and> b \<noteq> [] \<and> loadImage b = Some bg"
  proof -
    define st' where "st' = st\<lparr>layers := filter (\<lambda>l. loadImage (l_src l) \<noteq> None) (layers st)\<rparr>"
    have ls: "layers st' = filter (\<lambda>l. loadImage (l_src l) \<noteq> None) (layers st)"
      and "backgroundSrc st' = backgroundSrc st"
      by (simp_all add: st'_def)
    with pre have "backgroundSrc st' = Some b \<and> b \<noteq> [] \<and> loadImage b = Some bg"
      by simp
    from ok [OF this]
    have "handleDownload (Some (w, h)) True loadImage st' =
          Downloaded
            \<lparr>png_name = ''comfyui-composite.png'', png_width = w, png_height = h,
             png_content = DrawImage bg identityMatrix 0 0 w h
               # map (layerCommand loadImage) (filter (drawable loadImage) (layers st))\<rparr>
            []"
      by (simp only: ls filter_decodable list.map)
    then show ?thesis by (simp only: st'_def)
  qed
  show ?thesis
    unfolding sel
    using handleDownload_guards ok [of st] kept
    by blast
qed

lemma brokenState_eq:
  "brokenState =
     \<lparr>backgroundSrc = Some ''blob:bg'',
      layers = [\<lparr>l_id = ''a'', l_src = ''blob:fg'', l_name = ''fg.png'', l_x = 50, l_y = 50,
                 l_scale = 1, l_rotation = 0, l_width = 200, l_height = 100,
                 l_visible = True\<rparr>,
                \<lparr>l_id = ''b'', l_src = ''blob:gone'', l_name = ''gone.png'', l_x = 50, l_y = 50,
                 l_scale = 1, l_rotation = 0, l_width = 10, l_height = 10,
                 l_visible = True\<rparr>],
      selectedLayerId = None, canvasScale = 1\<rparr>"
  by (simp add: brokenState_def scenarioState_eq foregroundLoaded_def)

theorem export_failure_isolation_witness:
  "handleDownload (Some (800, 600)) True scenarioImages brokenState =
     Downloaded
       \<lparr>png_name = ''comfyui-composite.png'', png_width = 800, png_height = 600,
        png_content =
          [DrawImage \<lparr>img_src = ''blob:bg'', naturalWidth = 800, naturalHeight = 600\<rparr>
             identityMatrix 0 0 800 600,
           layerCommand scenarioImages (hd (layers brokenState))]\<rparr>
       [''gone.png'']
   \<and> handleDownload (Some (800, 600)) True scenarioImages initialState = NoOp"
  using export_failure_isolation [of True scenarioImages brokenState "Some (800, 600)"
      "''blob:bg''" "\<lparr>img_src = ''blob:bg'', naturalWidth = 800, naturalHeight = 600\<rparr>" 800 600]
    export_failure_isolation [of True scenarioImages initialState "Some (800, 600)"]
  by (simp add: brokenState_eq scenarioImages_simps) (simp add: initialState_def)

section \<open>Resize gesture\<close>

lemma spread_resize:
  "spread l (noUpdates\<lparr>u_x := Some a, u_y := Some b, u_scale := Some c\<rparr>) =
     l\<lparr>l_x := a, l_y := b, l_scale := c\<rparr>"
  by (simp add: spread_def noUpdates_def)

lemma resize_step:
  fixes rect :: "(real \<times> real) option" and e :: PointerEvent and px py :: real
    and ds :: DragState
  assumes "dragState ed = Some ds" and "ds_mode ds = Resize"
    and "ds_pivotWorld ds = Some (px, py)"
    and "selectedLayerId st = Some sel" and "sel \<noteq> []"
  defines "cd \<equiv> hypot (fst (getLocalCoords rect e) - px) (snd (getLocalCoords rect e) - py)"
  defines "ns \<equiv> resizedScale (l_scale (ds_startLayerState ds)) (the (ds_startDist ds)) cd"
  shows "handlePointerMove rect e (st, ed) =
     (if ds_startDist ds = None \<or> ds_startDist ds = Some 0 \<or> cd < 1
      then (st, ed\<lparr>isDraggingRef := True\<rparr>)
      else (st\<lparr>layers := map (\<lambda>l. if l_id l = sel
              then l\<lparr>l_x := px + (fst (ds_centerWorldStart ds) - px)
                              * (ns / l_scale (ds_startLayerState ds))
                            - l_width (ds_startLayerState ds) / 2,
                     l_y := py + (snd (ds_centerWorldStart ds) - py)
                              * (ns / l_scale (ds_startLayerState ds))
                            - l_height (ds_startLayerState ds) / 2,
                     l_scale := ns\<rparr>
              else l) (layers st)\<rparr>,
            ed\<lparr>isDraggingRef := True\<rparr>))"
  using assms(1-5) unfolding cd_def ns_def
  by (simp add: handlePointerMove_def handleUpdateLayer_def spread_resize Let_def
      resizedScale_def)

lemma resizedScale_ge: "0.05 \<le> resizedScale s0 sd cd"
  unfolding resizedScale_def by (rule max.cobounded1)

lemma pointerDown_resize:
  assumes "find (\<lambda>l. l_id l = i) (layers st) = Some L"
  shows "handlePointerDown rect e i Resize (Some h) (st, ed) =
     (st\<lparr>selectedLayerId := Some i\<rparr>,
      ed\<lparr>dragState := Some
           \<lparr>ds_mode = Resize, ds_handle = Some h,
            ds_startX = fst (getLocalCoords rect e), ds_startY = snd (getLocalCoords rect e),
            ds_startLayerState = L,
            ds_centerWorldStart = (l_x L + l_width L / 2, l_y L + l_height L / 2),
            ds_pivotWorld = Some (pivotWorldOf h L),
            ds_startDist = Some (hypot (fst (getLocalCoords rect e) - fst (pivotWorldOf h L))
                                       (snd (getLocalCoords rect e) - snd (pivotWorldOf h L))),
            ds_startAngle = None\<rparr>,
         isDraggingRef := False\<rparr>)"
proof (cases "selectedLayerId st = Some i")
  case True
  then have "st\<lparr>selectedLayerId := Some i\<rparr> = st" by simp
  then show ?thesis
    using assms True
    by (cases h) (simp_all add: handlePointerDown_def Let_def pivotWorldOf_def oppositeCorner_def)
next
  case False
  then show ?thesis
    using assms
    by (cases h) (simp_all add: handlePointerDown_def Let_def pivotWorldOf_def
        oppositeCorner_def handleSelectLayer_def)
qed


lemma pivot_after_resize:
  assumes "l_scale L \<noteq> 0"
    and "l_width l = l_width L" and "l_height l = l_height L"
    and "l_rotation l = l_rotation L"
  shows "pivotWorldOf h
      (l\<lparr>l_x := fst (pivotWorldOf h L)
               + (l_x L + l_width L / 2 - fst (pivotWorldOf h L)) * (ns / l_scale L)
               - l_width L / 2,
         l_y := snd (pivotWorldOf h L)
               + (l_y L + l_height L / 2 - snd (pivotWorldOf h L)) * (ns / l_scale L)
               - l_height L / 2,
         l_scale := ns\<rparr>) = pivotWorldOf h L"
  using assms
  by (simp add: pivotWorldOf_def oppositeCorner_def Let_def field_simps split: ResizeHandle.split)

lemma resizeInvariant_step:
  assumes inv: "resizeInvariant h L ds k se"
    and ds: "ds_mode ds = Resize" "ds_pivotWorld ds = Some (pivotWorldOf h L)"
      "ds_startLayerState ds = L"
      "ds_centerWorldStart ds = (l_x L + l_width L / 2, l_y L + l_height L / 2)"
    and nz: "l_scale L \<noteq> 0"
  shows "resizeInvariant h L ds k (handlePointerMove rect e se)"
proof (cases "l_id L = []")
  case True
  with inv have "handlePointerMove rect e se = se"
    by (simp add: resizeInvariant_def handlePointerMove_def)
  with inv show ?thesis by simp
next
  case False
  obtain st ed where se: "se = (st, ed)" by (cases se)
  from inv se have d: "dragState ed = Some ds" and s: "selectedLayerId st = Some (l_id L)"
    and k: "k < length (layers st)" and idk: "l_id (layers st ! k) = l_id L"
    and geo: "l_width (layers st ! k) = l_width L" "l_height (layers st ! k) = l_height L"
      "l_rotation (layers st ! k) = l_rotation L"
    and piv: "pivotWorldOf h (layers st ! k) = pivotWorldOf h L"
    by (simp_all add: resizeInvariant_def)
  have pw: "ds_pivotWorld ds = Some (fst (pivotWorldOf h L), snd (pivotWorldOf h L))"
    using ds(2) by simp
  note step = resize_step [OF d ds(1) pw s False, of rect e]
  show ?thesis
    unfolding se step
    using d s k idk geo piv pivot_after_resize [OF nz geo, of h]
    by (simp add: resizeInvariant_def ds)
qed

lemma resizeInvariant_fold:
  assumes "resizeInvariant h L ds k se"
    and "ds_mode ds = Resize" and "ds_pivotWorld ds = Some (pivotWorldOf h L)"
    and "ds_startLayerState ds = L"
    and "ds_centerWorldStart ds = (l_x L + l_width L / 2, l_y L + l_height L / 2)"
    and "l_scale L \<noteq> 0"
  shows "resizeInvariant h L ds k (pointerMoves es se)"
  using assms unfolding pointerMoves_def
  by (induction es arbitrary: se) (simp_all add: resizeInvariant_step)

text \<open>
  C2. A resize gesture begun with handle \<open>h\<close> on a layer of non-zero scale records the
  pivot recomputed from that layer; after any run of pointer-move events of the
  gesture, accepted or ignored, with or without the floor of 0.05 engaged, the pivot
  recomputed from the layer's current \<open>x\<close>, \<open>y\<close>, scale and its unchanged rotation is the
  recorded one.
\<close>

theorem resize_pivot_fixed:
  assumes "find (\<lambda>l. l_id l = i) (layers st) = Some L"
    and "k < length (layers st)" and "layers st ! k = L"
    and "l_scale L \<noteq> 0"
  shows "ds_pivotWorld (the (dragState (snd
           (pointerMoves es
              (handlePointerDown rect e i Resize (Some h) (st, ed))))))
         = Some (pivotWorldOf h L)
   \<and> pivotWorldOf h (layers (fst
           (pointerMoves es
              (handlePointerDown rect e i Resize (Some h) (st, ed)))) ! k)
         = pivotWorldOf h L"
proof -
  let ?ds = "\<lparr>ds_mode = Resize, ds_handle = Some h,
            ds_startX = fst (getLocalCoords rect e), ds_startY = snd (getLocalCoords rect e),
            ds_startLayerState = L,
            ds_centerWorldStart = (l_x L + l_width L / 2, l_y L + l_height L / 2),
            ds_pivotWorld = Some (pivotWorldOf h L),
            ds_startDist = Some (hypot (fst (getLocalCoords rect e) - fst (pivotWorldOf h L))
                                       (snd (getLocalCoords rect e) - snd (pivotWorldOf h L))),
            ds_startAngle = None\<rparr>"
  from assms(1) have "i = l_id L"
    by (auto simp: find_Some_iff)
  with assms have "resizeInvariant h L ?ds k (handlePointerDown rect e i Resize (Some h) (st, ed))"
    by (simp add: pointerDown_resize resizeInvariant_def)
  then have "resizeInvariant h L ?ds k
      (pointerMoves es
         (handlePointerDown rect e i Resize (Some h) (st, ed)))"
    using assms(4) by (intro resizeInvariant_fold) simp_all
  then show ?thesis
    by (simp add: resizeInvariant_def)
qed


lemma hypot_scale: "hypot (c * a) (c * b) = \<bar>c\<bar> * hypot a b"
proof -
  have "(c * a)\<^sup>2 + (c * b)\<^sup>2 = c\<^sup>2 * (a\<^sup>2 + b\<^sup>2)"
    by (simp add: power2_eq_square algebra_simps)
  then show ?thesis
    by (simp add: hypot_def real_sqrt_mult)
qed

lemma hypot_400_200: "hypot 400 200 = 2 * hypot 200 100"
  using hypot_scale [of 2 200 100] by simp

lemma hypot_200_100: "1 \<le> hypot 200 100" "hypot 200 100 \<noteq> 0"
  by (simp_all add: hypot_def)

lemma hypot_half: "hypot (1 / 2) 0 < 1"
  by (simp add: hypot_def power2_eq_square)

lemma scenario_down_resize:
  "handlePointerDown None (pointerAt mx my) ''a'' Resize (Some SE) (scenarioState, initialLocal) =
     (scenarioState\<lparr>selectedLayerId := Some ''a''\<rparr>,
      initialLocal\<lparr>dragState := Some
           \<lparr>ds_mode = Resize, ds_handle = Some SE, ds_startX = mx, ds_startY = my,
            ds_startLayerState = hd (layers scenarioState),
            ds_centerWorldStart = (150, 100),
            ds_pivotWorld = Some (50, 50),
            ds_startDist = Some (hypot (mx - 50) (my - 50)),
            ds_startAngle = None\<rparr>\<rparr>)"
  by (simp add: handlePointerDown_def scenarioState_eq initialLocal_def pointerAt_def
      getLocalCoords_def handleSelectLayer_def toRad_def Let_def)

subsection \<open>No event takes a scale below 0.05\<close>

lemma floor_le_max: "(0.05::real) \<le> max 0.05 v"
  by (rule max.cobounded1)

lemma floor_le_wheel: "(0.05::real) \<le> max 0.1 v"
proof -
  have "(0.05::real) \<le> 0.1" by simp
  also have "(0.1::real) \<le> max 0.1 v" by (rule max.cobounded1)
  finally show ?thesis .
qed

lemma spread_scale:
  "l_scale (spread l u) = (case u_scale u of None \<Rightarrow> l_scale l | Some v \<Rightarrow> v)"
  by (simp add: spread_def)

lemma update_keeps_floor:
  assumes "list_all (\<lambda>l. 0.05 \<le> l_scale l) (layers st)"
    and "case u_scale u of None \<Rightarrow> True | Some v \<Rightarrow> 0.05 \<le> v"
  shows "list_all (\<lambda>l. 0.05 \<le> l_scale l) (layers (handleUpdateLayer i u st))"
  using assms
  by (auto simp: handleUpdateLayer_def list_all_iff spread_scale split: option.splits)

lemma pointerMove_update:
  "\<exists>u. (case u_scale u of None \<Rightarrow> True | Some v \<Rightarrow> 0.05 \<le> v)
       \<and> (fst (handlePointerMove rect e se) = fst se
            \<or> fst (handlePointerMove rect e se)
                 = handleUpdateLayer (the (selectedLayerId (fst se))) u (fst se))"
proof -
  let ?ds = "the (dragState (snd se))"
  let ?cx = "fst (getLocalCoords rect e)"
  let ?cy = "snd (getLocalCoords rect e)"
  let ?ns = "max 0.05 (l_scale (ds_startLayerState ?ds)
      * (hypot (?cx - fst (the (ds_pivotWorld ?ds))) (?cy - snd (the (ds_pivotWorld ?ds)))
          / the (ds_startDist ?ds)))"
  let ?moveU = "noUpdates\<lparr>u_x := Some (l_x (ds_startLayerState ?ds) + (?cx - ds_startX ?ds)),
                          u_y := Some (l_y (ds_startLayerState ?ds) + (?cy - ds_startY ?ds))\<rparr>"
  let ?rotU = "noUpdates\<lparr>u_rotation := Some (l_rotation (ds_startLayerState ?ds)
      + (atan2 (?cy - snd (ds_centerWorldStart ?ds)) (?cx - fst (ds_centerWorldStart ?ds))
          - the (ds_startAngle ?ds)) * 180 / pi)\<rparr>"
  let ?px = "fst (the (ds_pivotWorld ?ds))"
  let ?py = "snd (the (ds_pivotWorld ?ds))"
  let ?resU = "noUpdates\<lparr>
      u_x := Some (?px + (fst (ds_centerWorldStart ?ds) - ?px)
                      * (?ns / l_scale (ds_startLayerState ?ds))
                    - l_width (ds_startLayerState ?ds) / 2),
      u_y := Some (?py + (snd (ds_centerWorldStart ?ds) - ?py)
                      * (?ns / l_scale (ds_startLayerState ?ds))
                    - l_height (ds_startLayerState ?ds) / 2),
      u_scale := Some ?ns\<rparr>"
  have cases: "fst (handlePointerMove rect e se) = fst se
      \<or> fst (handlePointerMove rect e se)
           = handleUpdateLayer (the (selectedLayerId (fst se))) ?moveU (fst se)
      \<or> fst (handlePointerMove rect e se)
           = handleUpdateLayer (the (selectedLayerId (fst se))) ?rotU (fst se)
      \<or> fst (handlePointerMove rect e se)
           = handleUpdateLayer (the (selectedLayerId (fst se))) ?resU (fst se)"
    by (simp add: handlePointerMove_def Let_def)
  have m: "case u_scale ?moveU of None \<Rightarrow> True | Some v \<Rightarrow> 0.05 \<le> v"
    by (simp add: noUpdates_def)
  have r: "case u_scale ?rotU of None \<Rightarrow> True | Some v \<Rightarrow> 0.05 \<le> v"
    by (simp add: noUpdates_def)
  have z: "case u_scale ?resU of None \<Rightarrow> True | Some v \<Rightarrow> 0.05 \<le> v"
    using floor_le_max by (simp del: max.bounded_iff)
  from cases m r z show ?thesis by blast
qed


lemma pointerMove_session:
  "dragState (snd (handlePointerMove rect e se)) = dragState (snd se)"
  by (simp add: handlePointerMove_def Let_def)

lemma pointerMove_keeps_floor:
  assumes "scalesFloored se"
  shows "scalesFloored (handlePointerMove rect e se)"
proof -
  obtain u where u: "case u_scale u of None \<Rightarrow> True | Some v \<Rightarrow> 0.05 \<le> v"
    and f: "fst (handlePointerMove rect e se) = fst se
            \<or> fst (handlePointerMove rect e se)
                 = handleUpdateLayer (the (selectedLayerId (fst se))) u (fst se)"
    using pointerMove_update by blast
  from assms have l: "list_all (\<lambda>l. 0.05 \<le> l_scale l) (layers (fst se))"
    by (simp add: scalesFloored_def)
  from f l update_keeps_floor [OF l u]
  have "list_all (\<lambda>l. 0.05 \<le> l_scale l) (layers (fst (handlePointerMove rect e se)))"
    by auto
  with assms show ?thesis
    by (simp add: scalesFloored_def pointerMove_session)
qed

lemma pointerDown_keeps_floor:
  assumes "scalesFloored se"
  shows "scalesFloored (handlePointerDown rect e i mode h se)"
proof (cases "find (\<lambda>l. l_id l = i) (layers (fst se))")
  case None
  with assms show ?thesis
    by (simp add: scalesFloored_def handlePointerDown_def handleSelectLayer_def Let_def)
next
  case (Some layer)
  then have "layer \<in> set (layers (fst se))"
    by (auto simp: find_Some_iff)
  with assms have "0.05 \<le> l_scale layer"
    by (simp add: scalesFloored_def list_all_iff)
  with assms Some show ?thesis
    by (simp add: scalesFloored_def handlePointerDown_def handleSelectLayer_def Let_def)
qed

lemma wheel_keeps_floor:
  assumes "list_all (\<lambda>l. 0.05 \<le> l_scale l) (layers st)"
  shows "list_all (\<lambda>l. 0.05 \<le> l_scale l) (layers (handleWheel deltaY st))"
proof -
  have "case u_scale (noUpdates\<lparr>u_scale := Some (max 0.1 v)\<rparr>) of
          None \<Rightarrow> True | Some w \<Rightarrow> 0.05 \<le> w" for v :: real
    using floor_le_wheel [of v] by (simp del: max.bounded_iff)
  from update_keeps_floor [OF assms this] assms show ?thesis
    by (simp add: handleWheel_def Let_def split: option.split)
qed

lemma dispatch_keeps_floor:
  assumes "wellFormed ev" and "scalesFloored se"
  shows "scalesFloored (dispatch ev se)"
proof (cases ev)
  case (ScaleInput i v)
  from assms(2) have l: "list_all (\<lambda>l. 0.05 \<le> l_scale l) (layers (fst se))"
    by (simp add: scalesFloored_def)
  from assms(1) ScaleInput have "(0.05::real) \<le> v" by simp
  then have "case u_scale (noUpdates\<lparr>u_scale := Some v\<rparr>) of
          None \<Rightarrow> True | Some w \<Rightarrow> 0.05 \<le> w"
    by simp
  from update_keeps_floor [OF l this] assms(2) ScaleInput show ?thesis
    by (simp add: scalesFloored_def)
next
  case (Wheel deltaY)
  with assms(2) wheel_keeps_floor [of "fst se" deltaY] show ?thesis
    by (simp add: scalesFloored_def)
next
  case (PointerDown rect e i mode h)
  with assms(2) show ?thesis by (simp add: pointerDown_keeps_floor)
next
  case (PointerMove rect e)
  with assms(2) show ?thesis by (simp add: pointerMove_keeps_floor)
next
  case (ForegroundLoaded newId url fileName w h)
  with assms(2) show ?thesis
    by (simp add: scalesFloored_def foregroundLoaded_def)
next
  case (RotationInput i v)
  from assms(2) have l: "list_all (\<lambda>l. 0.05 \<le> l_scale l) (layers (fst se))"
    by (simp add: scalesFloored_def)
  have "case u_scale (noUpdates\<lparr>u_rotation := Some v\<rparr>) of
          None \<Rightarrow> True | Some w \<Rightarrow> 0.05 \<le> w"
    by (simp add: noUpdates_def)
  from update_keeps_floor [OF l this] assms(2) RotationInput show ?thesis
    by (simp add: scalesFloored_def)
next
  case (PosXInput i v)
  from assms(2) have l: "list_all (\<lambda>l. 0.05 \<le> l_scale l) (layers (fst se))"
    by (simp add: scalesFloored_def)
  have "case u_scale (noUpdates\<lparr>u_x := Some v\<rparr>) of
          None \<Rightarrow> True | Some w \<Rightarrow> 0.05 \<le> w"
    by (simp add: noUpdates_def)
  from update_keeps_floor [OF l this] assms(2) PosXInput show ?thesis
    by (simp add: scalesFloored_def)
next
  case (PosYInput i v)
  from assms(2) have l: "list_all (\<lambda>l. 0.05 \<le> l_scale l) (layers (fst se))"
    by (simp add: scalesFloored_def)
  have "case u_scale (noUpdates\<lparr>u_y := Some v\<rparr>) of
          None \<Rightarrow> True | Some w \<Rightarrow> 0.05 \<le> w"
    by (simp add: noUpdates_def)
  from update_keeps_floor [OF l this] assms(2) PosYInput show ?thesis
    by (simp add: scalesFloored_def)
next
  case (DeleteLayer i)
  with assms(2) show ?thesis
    by (auto simp: scalesFloored_def handleDeleteLayer_def list_all_iff)
next
  case (ToggleVisibility i)
  with assms(2) show ?thesis
    by (auto simp: scalesFloored_def handleToggleVisibility_def list_all_iff)
qed (use assms(2) in \<open>simp_all add: scalesFloored_def handleUploadBackground_def
      handleSelectLayer_def handlePointerUp_def handleBackgroundClick_def
      backgroundLoaded_def\<close>)

lemma run_floored:
  assumes "list_all wellFormed es"
  shows "scalesFloored (run es)"
proof -
  have "scalesFloored (fold dispatch es se)" if "scalesFloored se" for se
    using assms that
    by (induction es arbitrary: se) (simp_all add: dispatch_keeps_floor)
  moreover have "scalesFloored (initialState, initialLocal)"
    by (simp add: scalesFloored_def initialState_def initialLocal_def)
  ultimately show ?thesis
    unfolding run_def by blast
qed

subsection \<open>The guards of a resize update\<close>

text \<open>
  C6. In a resize update: a pivot-to-pointer distance below 1 leaves the editor state as
  it is; so does an initial distance that is undefined or 0, so that the division by it
  is reached only with a non-zero divisor; otherwise the selected layer's scale becomes
  the snapshot scale times the ratio of the distances, floored at 0.05, and the other
  layers keep theirs. Every layer the update changes has a scale of at least 0.05. In
  every state the editor reaches from its initial state by well-formed events, neither
  divisor of the branch, the initial distance that passed the guard and the snapshot
  scale, is 0.
\<close>

theorem resize_guard:
  fixes rect :: "(real \<times> real) option" and e :: PointerEvent and px py :: real
    and ds :: DragState
  assumes "dragState ed = Some ds" and "ds_mode ds = Resize"
    and "ds_pivotWorld ds = Some (px, py)"
    and "selectedLayerId st = Some sel" and "sel \<noteq> []"
  shows "(hypot (fst (getLocalCoords rect e) - px) (snd (getLocalCoords rect e) - py) < 1 \<longrightarrow>
            handlePointerMove rect e (st, ed) = (st, ed\<lparr>isDraggingRef := True\<rparr>))
     \<and> (ds_startDist ds = None \<or> ds_startDist ds = Some 0 \<longrightarrow>
            handlePointerMove rect e (st, ed) = (st, ed\<lparr>isDraggingRef := True\<rparr>))
     \<and> (\<not> hypot (fst (getLocalCoords rect e) - px) (snd (getLocalCoords rect e) - py) < 1
          \<and> ds_startDist ds = Some sd \<and> sd \<noteq> 0 \<longrightarrow>
            map l_scale (layers (fst (handlePointerMove rect e (st, ed)))) =
              map (\<lambda>l. if l_id l = sel
                        then max 0.05 (l_scale (ds_startLayerState ds)
                               * (hypot (fst (getLocalCoords rect e) - px)
                                        (snd (getLocalCoords rect e) - py) / sd))
                        else l_scale l) (layers st))
     \<and> (\<forall>k<length (layers st).
            layers (fst (handlePointerMove rect e (st, ed))) ! k = layers st ! k
          \<or> 0.05 \<le> l_scale (layers (fst (handlePointerMove rect e (st, ed))) ! k))
     \<and> (list_all wellFormed es \<and> run es = (st, ed)
          \<and> ds_startDist ds = Some sd \<and> sd \<noteq> 0 \<longrightarrow>
            resizeDivisors ds = [sd, l_scale (ds_startLayerState ds)]
          \<and> 0 \<notin> set (resizeDivisors ds))"
proof (intro conjI impI allI)
  assume "hypot (fst (getLocalCoords rect e) - px) (snd (getLocalCoords rect e) - py) < 1"
  then show "handlePointerMove rect e (st, ed) = (st, ed\<lparr>isDraggingRef := True\<rparr>)"
    by (simp add: resize_step [OF assms])
next
  assume "ds_startDist ds = None \<or> ds_startDist ds = Some 0"
  then show "handlePointerMove rect e (st, ed) = (st, ed\<lparr>isDraggingRef := True\<rparr>)"
    by (elim disjE) (simp_all add: resize_step [OF assms])
next
  assume "\<not> hypot (fst (getLocalCoords rect e) - px) (snd (getLocalCoords rect e) - py) < 1
          \<and> ds_startDist ds = Some sd \<and> sd \<noteq> 0"
  then show "map l_scale (layers (fst (handlePointerMove rect e (st, ed)))) =
              map (\<lambda>l. if l_id l = sel
                        then max 0.05 (l_scale (ds_startLayerState ds)
                               * (hypot (fst (getLocalCoords rect e) - px)
                                        (snd (getLocalCoords rect e) - py) / sd))
                        else l_scale l) (layers st)"
    by (simp add: resize_step [OF assms] o_def if_distrib resizedScale_def cong: if_cong)
next
  fix k
  assume k: "k < length (layers st)"
  show "layers (fst (handlePointerMove rect e (st, ed))) ! k = layers st ! k
          \<or> 0.05 \<le> l_scale (layers (fst (handlePointerMove rect e (st, ed))) ! k)"
    unfolding resize_step [OF assms]
    using k resizedScale_ge by simp
next
  assume r: "list_all wellFormed es \<and> run es = (st, ed)
          \<and> ds_startDist ds = Some sd \<and> sd \<noteq> 0"
  then show "resizeDivisors ds = [sd, l_scale (ds_startLayerState ds)]"
    by (simp add: resizeDivisors_def)
next
  assume r: "list_all wellFormed es \<and> run es = (st, ed)
          \<and> ds_startDist ds = Some sd \<and> sd \<noteq> 0"
  then have "scalesFloored (st, ed)"
    using run_floored [of es] by simp
  with assms(1) have "(0.05::real) \<le> l_scale (ds_startLayerState ds)"
    by (simp add: scalesFloored_def)
  then have "l_scale (ds_startLayerState ds) \<noteq> 0"
    by auto
  with r show "0 \<notin> set (resizeDivisors ds)"
    by (simp add: resizeDivisors_def)
qed


lemma scenario_pivot: "pivotWorldOf SE (hd (layers scenarioState)) = (50, 50)"
  by (simp add: scenarioState_eq pivotWorldOf_def oppositeCorner_def toRad_def)

theorem resize_pivot_fixed_witness:
  "find (\<lambda>l. l_id l = ''a'') (layers scenarioState) = Some (hd (layers scenarioState))
   \<and> (0::nat) < length (layers scenarioState)
   \<and> layers scenarioState ! 0 = hd (layers scenarioState)
   \<and> l_scale (hd (layers scenarioState)) \<noteq> 0
   \<and> ds_pivotWorld (the (dragState (snd
           (pointerMoves
              [(None, pointerAt 450 250), (None, pointerAt 53 54)]
              (handlePointerDown None (pointerAt 250 150) ''a'' Resize (Some SE)
                 (scenarioState, initialLocal)))))) = Some (50, 50)
   \<and> pivotWorldOf SE (layers (fst
           (pointerMoves
              [(None, pointerAt 450 250), (None, pointerAt 53 54)]
              (handlePointerDown None (pointerAt 250 150) ''a'' Resize (Some SE)
                 (scenarioState, initialLocal)))) ! 0) = (50, 50)"
proof -
  have h: "find (\<lambda>l. l_id l = ''a'') (layers scenarioState) = Some (hd (layers scenarioState))"
    "(0::nat) < length (layers scenarioState)"
    "layers scenarioState ! 0 = hd (layers scenarioState)"
    "l_scale (hd (layers scenarioState)) \<noteq> 0"
    by (simp_all add: scenarioState_eq)
  from h resize_pivot_fixed [OF h,
      where es = "[(None, pointerAt 450 250), (None, pointerAt 53 54)]" and rect = None
        and e = "pointerAt 250 150" and ed = initialLocal and h = SE]
  show ?thesis
    unfolding scenario_pivot by blast
qed

theorem resize_guard_witness:
  "fst (handlePointerMove None (pointerAt (101 / 2) 50)
         (handlePointerDown None (pointerAt 250 150) ''a'' Resize (Some SE)
            (scenarioState, initialLocal)))
     = scenarioState\<lparr>selectedLayerId := Some ''a''\<rparr>
   \<and> fst (handlePointerMove None (pointerAt 450 250)
         (handlePointerDown None (pointerAt 50 50) ''a'' Resize (Some SE)
            (scenarioState, initialLocal)))
     = scenarioState\<lparr>selectedLayerId := Some ''a''\<rparr>
   \<and> map l_scale (layers (fst (handlePointerMove None (pointerAt 450 250)
         (handlePointerDown None (pointerAt 250 150) ''a'' Resize (Some SE)
            (scenarioState, initialLocal))))) = [2]
   \<and> resizeDivisors (the (dragState (snd (run
         [UploadBackground ''blob:bg'', ForegroundLoaded ''a'' ''blob:fg'' ''fg.png'' 200 100,
          PointerDown None (pointerAt 250 150) ''a'' Resize (Some SE)]))))
       = [hypot 200 100, 1]
   \<and> 0 \<notin> set (resizeDivisors (the (dragState (snd (run
         [UploadBackground ''blob:bg'', ForegroundLoaded ''a'' ''blob:fg'' ''fg.png'' 200 100,
          PointerDown None (pointerAt 250 150) ''a'' Resize (Some SE)])))))"
proof -
  let ?st = "scenarioState\<lparr>selectedLayerId := Some ''a''\<rparr>"
  let ?ds = "\<lambda>mx my. \<lparr>ds_mode = Resize, ds_handle = Some SE, ds_startX = mx, ds_startY = my,
            ds_startLayerState = hd (layers scenarioState),
            ds_centerWorldStart = (150, 100),
            ds_pivotWorld = Some (50, 50),
            ds_startDist = Some (hypot (mx - 50) (my - 50)),
            ds_startAngle = None\<rparr>"
  let ?ed = "\<lambda>mx my. initialLocal\<lparr>dragState := Some (?ds mx my)\<rparr>"
  have sel: "selectedLayerId ?st = Some ''a''" "''a'' \<noteq> []"
    by simp_all
  have near: "hypot (fst (getLocalCoords None (pointerAt (101 / 2) 50)) - 50)
                    (snd (getLocalCoords None (pointerAt (101 / 2) 50)) - 50) < 1"
    using hypot_half by (simp add: getLocalCoords_def pointerAt_def)
  have far: "\<not> hypot (fst (getLocalCoords None (pointerAt 450 250)) - 50)
                    (snd (getLocalCoords None (pointerAt 450 250)) - 50) < 1
        \<and> ds_startDist (?ds 250 150) = Some (hypot 200 100) \<and> hypot 200 100 \<noteq> 0"
    using hypot_200_100 by (simp add: getLocalCoords_def pointerAt_def hypot_400_200)
  have zero: "ds_startDist (?ds 50 50) = None \<or> ds_startDist (?ds 50 50) = Some 0"
    by (simp add: hypot_def)
  have g1: "dragState (?ed 250 150) = Some (?ds 250 150)" "ds_mode (?ds 250 150) = Resize"
    "ds_pivotWorld (?ds 250 150) = Some (50, 50)"
    by simp_all
  have g0: "dragState (?ed 50 50) = Some (?ds 50 50)" "ds_mode (?ds 50 50) = Resize"
    "ds_pivotWorld (?ds 50 50) = Some (50, 50)"
    by simp_all
  from resize_guard [OF g1 sel, where rect = None and e = "pointerAt (101 / 2) 50"] near
  have a: "handlePointerMove None (pointerAt (101 / 2) 50) (?st, ?ed 250 150)
      = (?st, (?ed 250 150)\<lparr>isDraggingRef := True\<rparr>)"
    by blast
  from resize_guard [OF g0 sel, where rect = None and e = "pointerAt 450 250"] zero
  have b: "handlePointerMove None (pointerAt 450 250) (?st, ?ed 50 50)
      = (?st, (?ed 50 50)\<lparr>isDraggingRef := True\<rparr>)"
    by blast
  from resize_guard [OF g1 sel, where rect = None and e = "pointerAt 450 250"
      and sd = "hypot 200 100"] far
  have "map l_scale (layers (fst (handlePointerMove None (pointerAt 450 250) (?st, ?ed 250 150))))
      = map (\<lambda>l. if l_id l = ''a''
                        then max 0.05 (l_scale (ds_startLayerState (?ds 250 150))
                               * (hypot (fst (getLocalCoords None (pointerAt 450 250)) - 50)
                                        (snd (getLocalCoords None (pointerAt 450 250)) - 50)
                                    / hypot 200 100))
                        else l_scale l) (layers ?st)"
    by blast
  then have c: "map l_scale (layers (fst (handlePointerMove None (pointerAt 450 250) (?st, ?ed 250 150))))
      = [2]"
    using hypot_200_100
    by (simp add: scenarioState_eq getLocalCoords_def pointerAt_def hypot_400_200)
  let ?es = "[UploadBackground ''blob:bg'', ForegroundLoaded ''a'' ''blob:fg'' ''fg.png'' 200 100,
          PointerDown None (pointerAt 250 150) ''a'' Resize (Some SE)]"
  have reached: "run ?es = (?st, ?ed 250 150)"
    using scenario_down_resize [of 250 150]
    by (simp add: run_def scenarioState_def)
  have events: "list_all wellFormed ?es"
    by simp
  from resize_guard [OF g1 sel, where es = ?es and sd = "hypot 200 100"] reached events far
  have d: "resizeDivisors (?ds 250 150) = [hypot 200 100, l_scale (ds_startLayerState (?ds 250 150))]
      \<and> 0 \<notin> set (resizeDivisors (?ds 250 150))"
    by blast
  have one: "l_scale (ds_startLayerState (?ds 250 150)) = 1"
    by (simp add: scenarioState_eq)
  show ?thesis
    unfolding reached scenario_down_resize using a b c d one hypot_200_100 by simp
qed



section \<open>Deleting the layer of a gesture\<close>

lemma pointerDown_selects:
  "selectedLayerId (fst (handlePointerDown rect e i mode h se)) = Some i"
  by (simp add: handlePointerDown_def handleSelectLayer_def Let_def split: option.split)

lemma pointerMove_selection:
  "selectedLayerId (fst (handlePointerMove rect e se)) = selectedLayerId (fst se)"
  by (simp add: handlePointerMove_def handleUpdateLayer_def Let_def)

lemma pointerMoves_selection:
  "selectedLayerId (fst (pointerMoves es se)) = selectedLayerId (fst se)"
  unfolding pointerMoves_def
  by (induction es arbitrary: se) (simp_all add: pointerMove_selection)

lemma pointerMoves_unselected:
  "selectedLayerId (fst se) = None \<Longrightarrow> pointerMoves es se = se"
  unfolding pointerMoves_def
  by (induction es) (simp_all add: handlePointerMove_def)

lemma update_absent:
  "\<forall>l\<in>set (layers st). l_id l \<noteq> i \<Longrightarrow> handleUpdateLayer i u st = st"
proof -
  assume "\<forall>l\<in>set (layers st). l_id l \<noteq> i"
  then have "map (\<lambda>l. if l_id l = i then spread l u else l) (layers st) = layers st"
    by (induction "layers st") (simp_all add: map_idI)
  then show ?thesis by (simp add: handleUpdateLayer_def)
qed

text \<open>
  C9. After a pointer-down on layer \<open>i\<close> and any pointer-moves, deleting \<open>i\<close> clears the
  selection and leaves no layer with that identifier; every later run of pointer-moves
  returns the state as it is; and an update addressed to an identifier that no layer
  carries changes nothing.
\<close>

theorem deleted_layer_gesture:
  "selectedLayerId
     (handleDeleteLayer i (fst (pointerMoves es (handlePointerDown rect e i mode h se)))) = None
   \<and> (\<forall>l\<in>set (layers
         (handleDeleteLayer i (fst (pointerMoves es (handlePointerDown rect e i mode h se))))).
         l_id l \<noteq> i)
   \<and> pointerMoves es'
        (handleDeleteLayer i (fst (pointerMoves es (handlePointerDown rect e i mode h se))),
         snd (pointerMoves es (handlePointerDown rect e i mode h se)))
      = (handleDeleteLayer i (fst (pointerMoves es (handlePointerDown rect e i mode h se))),
         snd (pointerMoves es (handlePointerDown rect e i mode h se)))
   \<and> ((\<forall>l\<in>set (layers st). l_id l \<noteq> i) \<longrightarrow> handleUpdateLayer i u st = st)"
proof -
  have sel: "selectedLayerId (fst (pointerMoves es (handlePointerDown rect e i mode h se))) = Some i"
    by (simp add: pointerMoves_selection pointerDown_selects)
  then have none: "selectedLayerId
     (handleDeleteLayer i (fst (pointerMoves es (handlePointerDown rect e i mode h se)))) = None"
    by (simp add: handleDeleteLayer_def)
  have gone: "\<forall>l\<in>set (layers
         (handleDeleteLayer i (fst (pointerMoves es (handlePointerDown rect e i mode h se))))).
         l_id l \<noteq> i"
    by (simp add: handleDeleteLayer_def)
  from none have still: "pointerMoves es'
        (handleDeleteLayer i (fst (pointerMoves es (handlePointerDown rect e i mode h se))),
         snd (pointerMoves es (handlePointerDown rect e i mode h se)))
      = (handleDeleteLayer i (fst (pointerMoves es (handlePointerDown rect e i mode h se))),
         snd (pointerMoves es (handlePointerDown rect e i mode h se)))"
    by (intro pointerMoves_unselected) simp
  from none gone still update_absent [of st i u] show ?thesis by blast
qed

lemma scenario_move_127:
  "pointerMoves [(None, pointerAt 127 75)]
     (handlePointerDown None (pointerAt 120 80) ''a'' Move None (scenarioState, initialLocal)) =
   (scenarioState\<lparr>selectedLayerId := Some ''a'',
       layers := [(hd (layers scenarioState))\<lparr>l_x := 57, l_y := 45\<rparr>]\<rparr>,
    initialLocal\<lparr>dragState := Some \<lparr>ds_mode = Move, ds_handle = None,
          ds_startX = 120, ds_startY = 80,
          ds_startLayerState = hd (layers scenarioState),
          ds_centerWorldStart = (150, 100),
          ds_pivotWorld = None, ds_startDist = None, ds_startAngle = None\<rparr>,
       isDraggingRef := True\<rparr>)"
  unfolding scenario_down_move pointerMoves_def
  by (simp add: handlePointerMove_def handleUpdateLayer_def spread_xy scenarioState_eq
      initialLocal_def pointerAt_def getLocalCoords_def Let_def)

theorem deleted_layer_gesture_witness:
  "pointerMoves [(None, pointerAt 300 300), (None, pointerAt 10 10)]
     (handleDeleteLayer ''a''
        (fst (pointerMoves [(None, pointerAt 127 75)]
           (handlePointerDown None (pointerAt 120 80) ''a'' Move None
              (scenarioState, initialLocal)))),
      snd (pointerMoves [(None, pointerAt 127 75)]
           (handlePointerDown None (pointerAt 120 80) ''a'' Move None
              (scenarioState, initialLocal))))
   = (scenarioState\<lparr>layers := []\<rparr>,
      initialLocal\<lparr>dragState := Some \<lparr>ds_mode = Move, ds_handle = None,
          ds_startX = 120, ds_startY = 80,
          ds_startLayerState = hd (layers scenarioState),
          ds_centerWorldStart = (150, 100),
          ds_pivotWorld = None, ds_startDist = None, ds_startAngle = None\<rparr>,
       isDraggingRef := True\<rparr>)
   \<and> handleUpdateLayer ''a'' (noUpdates\<lparr>u_x := Some 1\<rparr>) (scenarioState\<lparr>layers := []\<rparr>)
       = scenarioState\<lparr>layers := []\<rparr>"
proof -
  have h: "\<forall>l\<in>set (layers (scenarioState\<lparr>layers := []\<rparr>)). l_id l \<noteq> ''a''"
    by simp
  have d: "handleDeleteLayer ''a''
        (fst (pointerMoves [(None, pointerAt 127 75)]
           (handlePointerDown None (pointerAt 120 80) ''a'' Move None
              (scenarioState, initialLocal)))) = scenarioState\<lparr>layers := []\<rparr>"
    unfolding scenario_move_127
    by (simp add: handleDeleteLayer_def scenarioState_eq)
  from deleted_layer_gesture [where i = "''a''" and es = "[(None, pointerAt 127 75)]"
      and rect = None and e = "pointerAt 120 80" and mode = Move and h = None
      and se = "(scenarioState, initialLocal)"
      and es' = "[(None, pointerAt 300 300), (None, pointerAt 10 10)]"
      and st = "scenarioState\<lparr>layers := []\<rparr>" and u = "noUpdates\<lparr>u_x := Some 1\<rparr>"] h
  show ?thesis
    unfolding d unfolding scenario_move_127 by simp
qed

section \<open>The scenario: a rotate gesture, then a resize gesture\<close>

lemma atan2_scenario: "atan2 0 50 = 0" "atan2 50 50 = pi / 4" "atan2 50 0 = pi / 2"
  by (simp_all add: atan2_def arctan_one)

lemma spread_rotation:
  "spread l (noUpdates\<lparr>u_rotation := Some r\<rparr>) = l\<lparr>l_rotation := r\<rparr>"
  by (simp add: spread_def noUpdates_def)

lemma afterRotate_eq:
  "afterRotate =
     (\<lparr>backgroundSrc = Some ''blob:bg'',
       layers = [\<lparr>l_id = ''a'', l_src = ''blob:fg'', l_name = ''fg.png'', l_x = 50, l_y = 50,
                 l_scale = 1, l_rotation = 45, l_width = 200, l_height = 100,
                 l_visible = True\<rparr>],
       selectedLayerId = Some ''a'', canvasScale = 1\<rparr>,
      \<lparr>dragState = None, bgSize = (800, 600), isDraggingRef = True\<rparr>)"
  by (simp add: afterRotate_def handlePointerUp_def handlePointerMove_def
      handlePointerDown_def handleUpdateLayer_def handleSelectLayer_def spread_rotation
      scenarioState_eq initialLocal_def pointerAt_def getLocalCoords_def atan2_scenario
      Let_def)

lemma toRad_45: "toRad 45 = pi / 4"
  by (simp add: toRad_def)

lemma seResizeStart_rotated:
  "seResizeStart p afterRotate =
     (fst afterRotate,
      \<lparr>dragState = Some
         \<lparr>ds_mode = Resize, ds_handle = Some SE, ds_startX = fst p, ds_startY = snd p,
          ds_startLayerState = hd (layers (fst afterRotate)),
          ds_centerWorldStart = (150, 100),
          ds_pivotWorld = Some (150 - 25 * sqrt 2, 100 - 75 * sqrt 2),
          ds_startDist = Some (hypot (fst p - (150 - 25 * sqrt 2)) (snd p - (100 - 75 * sqrt 2))),
          ds_startAngle = None\<rparr>,
       bgSize = (800, 600), isDraggingRef = False\<rparr>)"
  unfolding afterRotate_eq
  by (simp add: seResizeStart_def handlePointerDown_def pointerAt_def getLocalCoords_def
      toRad_45 cos_45 sin_45 Let_def)


lemma seResizeStart_unrotated:
  "seResizeStart p (scenarioState, initialLocal) =
     (scenarioState\<lparr>selectedLayerId := Some ''a''\<rparr>,
      \<lparr>dragState = Some
         \<lparr>ds_mode = Resize, ds_handle = Some SE, ds_startX = fst p, ds_startY = snd p,
          ds_startLayerState = hd (layers scenarioState),
          ds_centerWorldStart = (150, 100),
          ds_pivotWorld = Some (50, 50),
          ds_startDist = Some (hypot (fst p - 50) (snd p - 50)),
          ds_startAngle = None\<rparr>,
       bgSize = (800, 600), isDraggingRef = False\<rparr>)"
  by (simp add: seResizeStart_def handlePointerDown_def pointerAt_def getLocalCoords_def
      scenarioState_eq initialLocal_def handleSelectLayer_def toRad_def Let_def)

lemma hypot_rotated:
  "hypot (100 * sqrt 2) (300 * sqrt 2) = 2 * hypot (50 * sqrt 2) (150 * sqrt 2)"
  "1 \<le> hypot (50 * sqrt 2) (150 * sqrt 2)"
proof -
  show "hypot (100 * sqrt 2) (300 * sqrt 2) = 2 * hypot (50 * sqrt 2) (150 * sqrt 2)"
    using hypot_scale [of 2 "50 * sqrt 2" "150 * sqrt 2"] by simp
  show "1 \<le> hypot (50 * sqrt 2) (150 * sqrt 2)"
    by (simp add: hypot_def power_mult_distrib)
qed

lemma seResize_unrotated:
  "layers (fst (seResize (250, 150) (450, 250) (scenarioState, initialLocal))) =
     [\<lparr>l_id = ''a'', l_src = ''blob:fg'', l_name = ''fg.png'', l_x = 150, l_y = 100,
       l_scale = 2, l_rotation = 0, l_width = 200, l_height = 100, l_visible = True\<rparr>]"
  unfolding seResize_def seResizeStart_unrotated
  using hypot_200_100
  by (simp add: handlePointerMove_def handleUpdateLayer_def spread_resize scenarioState_eq
      pointerAt_def getLocalCoords_def hypot_400_200 Let_def)

lemma seResize_rotated:
  "layers (fst (seResize (150 + 25 * sqrt 2, 100 + 75 * sqrt 2)
                         (150 + 75 * sqrt 2, 100 + 225 * sqrt 2) afterRotate)) =
     [\<lparr>l_id = ''a'', l_src = ''blob:fg'', l_name = ''fg.png'',
       l_x = 50 + 25 * sqrt 2, l_y = 50 + 75 * sqrt 2,
       l_scale = 2, l_rotation = 45, l_width = 200, l_height = 100, l_visible = True\<rparr>]"
  unfolding seResize_def seResizeStart_rotated
  using hypot_rotated(2)
  by (simp add: handlePointerMove_def handleUpdateLayer_def spread_resize afterRotate_eq
      pointerAt_def getLocalCoords_def hypot_rotated(1) Let_def)

text \<open>
  C4, as amended. In the scenario the rotate gesture from angle \<open>atan2(0, 50)\<close> to
  \<open>atan2(50, 50)\<close> takes the rotation from 0 to 45 and leaves \<open>x\<close>, \<open>y\<close> at (50, 50).
  A resize gesture from the \<open>se\<close> handle on the unrotated layer has its pivot at (50, 50);
  doubling the pivot-to-pointer distance sets the scale to 2 and \<open>x\<close>, \<open>y\<close> to (150, 100),
  which keeps the pivot corner at (50, 50). The same gesture after the rotate gesture has
  its pivot at the rotated \<open>nw\<close> corner \<open>(150 - 25 \<surd>2, 100 - 75 \<surd>2)\<close>; doubling the
  distance sets the scale to 2 and keeps that pivot fixed.
\<close>

theorem scenario_gestures:
  "map (\<lambda>l. (l_x l, l_y l, l_scale l, l_rotation l)) (layers (fst afterRotate))
     = [(50, 50, 1, 45)]
   \<and> ds_pivotWorld (the (dragState (snd (seResizeStart (250, 150) (scenarioState, initialLocal)))))
     = Some (50, 50)
   \<and> map (\<lambda>l. (l_x l, l_y l, l_scale l, l_rotation l, pivotWorldOf SE l))
       (layers (fst (seResize (250, 150) (450, 250) (scenarioState, initialLocal))))
     = [(150, 100, 2, 0, (50, 50))]
   \<and> ds_pivotWorld (the (dragState (snd (seResizeStart (150 + 25 * sqrt 2, 100 + 75 * sqrt 2)
         afterRotate))))
     = Some (150 - 25 * sqrt 2, 100 - 75 * sqrt 2)
   \<and> map (\<lambda>l. (l_x l, l_y l, l_scale l, l_rotation l, pivotWorldOf SE l))
       (layers (fst (seResize (150 + 25 * sqrt 2, 100 + 75 * sqrt 2)
                         (150 + 75 * sqrt 2, 100 + 225 * sqrt 2) afterRotate)))
     = [(50 + 25 * sqrt 2, 50 + 75 * sqrt 2, 2, 45,
         (150 - 25 * sqrt 2, 100 - 75 * sqrt 2))]"
  unfolding seResize_unrotated seResize_rotated seResizeStart_unrotated seResizeStart_rotated
  by (simp add: afterRotate_eq pivotWorldOf_def oppositeCorner_def toRad_45 cos_45 sin_45)
    (simp add: toRad_def)

text \<open>
  C4 as stated fails: after the rotate gesture the pivot of the resize gesture is not
  at (50, 50).
\<close>

theorem scenario_pivot_counterexample:
  "ds_pivotWorld (the (dragState (snd (seResizeStart (150 + 25 * sqrt 2, 100 + 75 * sqrt 2)
         afterRotate))))
     = Some (150 - 25 * sqrt 2, 100 - 75 * sqrt 2)
   \<and> ds_pivotWorld (the (dragState (snd (seResizeStart (150 + 25 * sqrt 2, 100 + 75 * sqrt 2)
         afterRotate))))
     \<noteq> Some (50, 50)"
  unfolding seResizeStart_rotated by simp

section \<open>Rotate gesture\<close>

text \<open>\<open>atan2\<close> returns the angle of a point given in polar form, up to a whole turn.\<close>

lemma atan2_polar_mid:
  assumes "0 < r" and "- (pi / 2) < b" and "b < pi / 2"
  shows "atan2 (r * sin b) (r * cos b) = b"
proof -
  have c: "0 < cos b" using assms by (simp add: cos_gt_zero_pi)
  then have "0 < r * cos b" using assms by simp
  moreover have "r * sin b / (r * cos b) = tan b"
    using assms by (simp add: tan_def)
  ultimately show ?thesis
    using assms by (simp add: atan2_def arctan_tan)
qed

lemma atan2_polar_upper:
  assumes "0 < r" and "pi / 2 < b" and "b \<le> pi"
  shows "atan2 (r * sin b) (r * cos b) = b"
proof -
  have "0 < cos (b - pi)" using assms by (intro cos_gt_zero_pi) simp_all
  then have c: "cos b < 0" by simp
  have s: "0 \<le> sin b" using assms by (intro sin_ge_zero) simp_all
  have x: "r * cos b < 0" using c assms by (simp add: mult_pos_neg)
  have y: "0 \<le> r * sin b" using s assms by simp
  have "r * sin b / (r * cos b) = tan (b - pi)"
    using assms by (simp add: tan_def)
  moreover have "arctan (tan (b - pi)) = b - pi"
    using assms by (intro arctan_tan) simp_all
  ultimately show ?thesis
    using x y by (simp add: atan2_def)
qed

lemma atan2_polar_lower:
  assumes "0 < r" and "- pi < b" and "b < - (pi / 2)"
  shows "atan2 (r * sin b) (r * cos b) = b"
proof -
  have "0 < cos (b + pi)" using assms by (intro cos_gt_zero_pi) simp_all
  then have c: "cos b < 0" by simp
  have "0 < sin (b + pi)" using assms by (intro sin_gt_zero) simp_all
  then have s: "sin b < 0" by simp
  have x: "r * cos b < 0" using c assms by (simp add: mult_pos_neg)
  have y: "r * sin b < 0" using s assms by (simp add: mult_pos_neg)
  have "r * sin b / (r * cos b) = tan (b + pi)"
    using assms by (simp add: tan_def)
  moreover have "arctan (tan (b + pi)) = b + pi"
    using assms by (intro arctan_tan) simp_all
  ultimately show ?thesis
    using x y by (simp add: atan2_def)
qed

lemma atan2_polar:
  assumes "0 < r" and "- pi < b" and "b \<le> pi"
  shows "atan2 (r * sin b) (r * cos b) = b"
proof -
  consider "b < - (pi / 2)" | "b = - (pi / 2)" | "- (pi / 2) < b \<and> b < pi / 2"
    | "b = pi / 2" | "pi / 2 < b"
    by linarith
  then show ?thesis
  proof cases
    case 1 then show ?thesis using assms by (simp add: atan2_polar_lower)
  next
    case 2
    have "atan2 (r * sin (- (pi / 2))) (r * cos (- (pi / 2))) = - (pi / 2)"
      using assms(1) by (simp add: atan2_def)
    then show ?thesis unfolding 2 .
  next
    case 3 then show ?thesis using assms by (simp add: atan2_polar_mid)
  next
    case 4
    have "atan2 (r * sin (pi / 2)) (r * cos (pi / 2)) = pi / 2"
      using assms(1) by (simp add: atan2_def)
    then show ?thesis unfolding 4 .
  next
    case 5 then show ?thesis using assms by (simp add: atan2_polar_upper)
  qed
qed


lemma atan2_polar_periodic:
  assumes "0 < r"
  shows "\<exists>k::int. atan2 (r * sin b) (r * cos b) = b + 2 * pi * of_int k"
proof -
  define q where "q = (b - pi) / (2 * pi)"
  define k :: int where "k = - \<lceil>q\<rceil>"
  define c where "c = b + 2 * pi * of_int k"
  have qn: "q \<le> of_int \<lceil>q\<rceil>" "of_int \<lceil>q\<rceil> < q + 1"
    by linarith+
  have qb: "q * (2 * pi) = b - pi"
    unfolding q_def by simp
  have lo: "q * (2 * pi) \<le> of_int \<lceil>q\<rceil> * (2 * pi)"
    using qn(1) by (intro mult_right_mono) simp_all
  have hi: "of_int \<lceil>q\<rceil> * (2 * pi) < (q + 1) * (2 * pi)"
    using qn(2) by (intro mult_strict_right_mono) simp_all
  have e: "(q + 1) * (2 * pi) = q * (2 * pi) + 2 * pi"
    by (simp add: algebra_simps)
  have ck: "c = b - of_int \<lceil>q\<rceil> * (2 * pi)"
    unfolding c_def k_def by simp
  have range: "- pi < c" "c \<le> pi"
    using lo hi e qb ck by linarith+
  have "sin c = sin b" "cos c = cos b"
    unfolding c_def by (simp_all add: sin_add cos_add)
  with atan2_polar [OF assms range] have "atan2 (r * sin b) (r * cos b) = c"
    by simp
  then show ?thesis unfolding c_def by blast
qed

lemma polar_form:
  assumes "x \<noteq> 0 \<or> y \<noteq> 0"
  shows "x = hypot x y * cos (atan2 y x) \<and> y = hypot x y * sin (atan2 y x) \<and> 0 < hypot x y"
proof -
  have pos: "0 < hypot x y"
    using assms unfolding hypot_def
    by (metis real_sqrt_gt_zero sum_power2_gt_zero_iff)
  define u where "u = x / hypot x y"
  define v where "v = y / hypot x y"
  have h2: "(hypot x y)\<^sup>2 = x\<^sup>2 + y\<^sup>2"
    by (simp add: hypot_def)
  have "u\<^sup>2 + v\<^sup>2 = (x\<^sup>2 + y\<^sup>2) / (hypot x y)\<^sup>2"
    unfolding u_def v_def by (simp add: power_divide add_divide_distrib)
  also have "\<dots> = (hypot x y)\<^sup>2 / (hypot x y)\<^sup>2"
    by (simp only: h2)
  also have "\<dots> = 1"
    using pos by simp
  finally have "u\<^sup>2 + v\<^sup>2 = 1" .
  then obtain t where t: "0 \<le> t" "t < 2 * pi" "u = cos t" "v = sin t"
    by (rule sincos_total_2pi)
  have xy: "x = hypot x y * cos t" "y = hypot x y * sin t"
    using pos t(3,4) unfolding u_def v_def by (simp_all add: field_simps)
  obtain k :: int where "atan2 (hypot x y * sin t) (hypot x y * cos t) = t + 2 * pi * of_int k"
    using atan2_polar_periodic [OF pos] by blast
  then have "atan2 y x = t + 2 * pi * of_int k"
    using xy by simp
  then have "cos (atan2 y x) = cos t" "sin (atan2 y x) = sin t"
    by (simp_all add: sin_add cos_add)
  with xy pos show ?thesis by simp
qed


lemma rotate_step:
  assumes "dragState ed = Some ds" and "ds_mode ds = Rotate"
    and "ds_startAngle ds = Some a0"
    and "selectedLayerId st = Some sel" and "sel \<noteq> []"
  shows "handlePointerMove rect e (st, ed) =
     (st\<lparr>layers := map (\<lambda>l. if l_id l = sel
          then l\<lparr>l_rotation := l_rotation (ds_startLayerState ds)
                 + (atan2 (snd (getLocalCoords rect e) - snd (ds_centerWorldStart ds))
                          (fst (getLocalCoords rect e) - fst (ds_centerWorldStart ds)) - a0)
                   * 180 / pi\<rparr>
          else l) (layers st)\<rparr>,
      ed\<lparr>isDraggingRef := True\<rparr>)"
  using assms
  by (simp add: handlePointerMove_def handleUpdateLayer_def spread_rotation Let_def)

lemma rotated_pointer_angle:
  assumes "dx \<noteq> 0 \<or> dy \<noteq> 0" and "0 < lam"
    and "qx = lam * (dx * cos t - dy * sin t)"
    and "qy = lam * (dx * sin t + dy * cos t)"
  shows "\<exists>k::int. atan2 qy qx = atan2 dy dx + t + 2 * pi * of_int k"
    and "- pi < atan2 dy dx + t \<Longrightarrow> atan2 dy dx + t \<le> pi \<Longrightarrow> atan2 qy qx = atan2 dy dx + t"
proof -
  define a where "a = atan2 dy dx"
  define r where "r = lam * hypot dx dy"
  from polar_form [OF assms(1)]
  have dx: "dx = hypot dx dy * cos a" and dy: "dy = hypot dx dy * sin a"
    and pos: "0 < hypot dx dy"
    unfolding a_def by simp_all
  have r: "0 < r" unfolding r_def using assms(2) pos by simp
  have "qx = lam * (hypot dx dy * cos a * cos t - hypot dx dy * sin a * sin t)"
    unfolding assms(3) using dx dy by simp
  then have qx: "qx = r * cos (a + t)"
    unfolding r_def by (simp add: cos_add algebra_simps)
  have "qy = lam * (hypot dx dy * cos a * sin t + hypot dx dy * sin a * cos t)"
    unfolding assms(4) using dx dy by simp
  then have qy: "qy = r * sin (a + t)"
    unfolding r_def by (simp add: sin_add algebra_simps)
  show "\<exists>k::int. atan2 qy qx = atan2 dy dx + t + 2 * pi * of_int k"
    unfolding qx qy a_def [symmetric] by (rule atan2_polar_periodic [OF r])
  show "atan2 qy qx = atan2 dy dx + t" if "- pi < atan2 dy dx + t" "atan2 dy dx + t \<le> pi"
    unfolding qx qy using that unfolding a_def [symmetric] by (rule atan2_polar [OF r])
qed


text \<open>
  C3, as amended. In an active rotate gesture a pointer-move sets the rotation of the
  selected layer to the snapshot rotation plus
  \<open>(atan2(currY - cy, currX - cx) - startAngle) * 180 / \<pi>\<close>, about the centre fixed at
  the gesture's start, unclamped, and changes no other field and no other layer. When
  the pointer, at any positive distance factor \<open>lam\<close>, is the start pointer turned by
  \<open>theta\<close> degrees about that centre, the rotation changes by \<open>theta\<close> plus a whole
  multiple of 360 degrees, and by exactly \<open>theta\<close> when the start angle plus \<open>theta\<close>
  lies in \<open>(-\<pi>, \<pi>]\<close>.
\<close>

theorem rotate_update:
  assumes "dragState ed = Some ds" and "ds_mode ds = Rotate"
    and "ds_startAngle ds = Some a0"
    and "selectedLayerId st = Some sel" and "sel \<noteq> []"
  shows "handlePointerMove rect e (st, ed) =
     (st\<lparr>layers := map (\<lambda>l. if l_id l = sel
          then l\<lparr>l_rotation := l_rotation (ds_startLayerState ds)
                 + (atan2 (snd (getLocalCoords rect e) - snd (ds_centerWorldStart ds))
                          (fst (getLocalCoords rect e) - fst (ds_centerWorldStart ds)) - a0)
                   * 180 / pi\<rparr>
          else l) (layers st)\<rparr>,
      ed\<lparr>isDraggingRef := True\<rparr>)
   \<and> (a0 = atan2 (ds_startY ds - snd (ds_centerWorldStart ds))
                  (ds_startX ds - fst (ds_centerWorldStart ds))
      \<and> (ds_startX ds \<noteq> fst (ds_centerWorldStart ds)
           \<or> ds_startY ds \<noteq> snd (ds_centerWorldStart ds))
      \<and> 0 < lam
      \<and> fst (getLocalCoords rect e) - fst (ds_centerWorldStart ds) =
          lam * ((ds_startX ds - fst (ds_centerWorldStart ds)) * cos (toRad theta)
                 - (ds_startY ds - snd (ds_centerWorldStart ds)) * sin (toRad theta))
      \<and> snd (getLocalCoords rect e) - snd (ds_centerWorldStart ds) =
          lam * ((ds_startX ds - fst (ds_centerWorldStart ds)) * sin (toRad theta)
                 + (ds_startY ds - snd (ds_centerWorldStart ds)) * cos (toRad theta))
      \<longrightarrow>
        (\<exists>k::int. map l_rotation (layers (fst (handlePointerMove rect e (st, ed)))) =
            map (\<lambda>l. if l_id l = sel
                      then l_rotation (ds_startLayerState ds) + theta + 360 * of_int k
                      else l_rotation l) (layers st))
      \<and> (- pi < a0 + toRad theta \<and> a0 + toRad theta \<le> pi \<longrightarrow>
          map l_rotation (layers (fst (handlePointerMove rect e (st, ed)))) =
            map (\<lambda>l. if l_id l = sel
                      then l_rotation (ds_startLayerState ds) + theta
                      else l_rotation l) (layers st)))"
proof (intro conjI impI)
  show "handlePointerMove rect e (st, ed) =
     (st\<lparr>layers := map (\<lambda>l. if l_id l = sel
          then l\<lparr>l_rotation := l_rotation (ds_startLayerState ds)
                 + (atan2 (snd (getLocalCoords rect e) - snd (ds_centerWorldStart ds))
                          (fst (getLocalCoords rect e) - fst (ds_centerWorldStart ds)) - a0)
                   * 180 / pi\<rparr>
          else l) (layers st)\<rparr>,
      ed\<lparr>isDraggingRef := True\<rparr>)"
    by (rule rotate_step [OF assms])
next
  define cx where "cx = fst (ds_centerWorldStart ds)"
  define cy where "cy = snd (ds_centerWorldStart ds)"
  define qx where "qx = fst (getLocalCoords rect e) - cx"
  define qy where "qy = snd (getLocalCoords rect e) - cy"
  have rot: "map l_rotation (layers (fst (handlePointerMove rect e (st, ed)))) =
      map (\<lambda>l. if l_id l = sel
                then l_rotation (ds_startLayerState ds) + (atan2 qy qx - a0) * 180 / pi
                else l_rotation l) (layers st)"
    unfolding rotate_step [OF assms] qx_def qy_def cx_def cy_def
    by (simp add: o_def if_distrib cong: if_cong)
  assume "a0 = atan2 (ds_startY ds - snd (ds_centerWorldStart ds))
                  (ds_startX ds - fst (ds_centerWorldStart ds))
      \<and> (ds_startX ds \<noteq> fst (ds_centerWorldStart ds)
           \<or> ds_startY ds \<noteq> snd (ds_centerWorldStart ds))
      \<and> 0 < lam
      \<and> fst (getLocalCoords rect e) - fst (ds_centerWorldStart ds) =
          lam * ((ds_startX ds - fst (ds_centerWorldStart ds)) * cos (toRad theta)
                 - (ds_startY ds - snd (ds_centerWorldStart ds)) * sin (toRad theta))
      \<and> snd (getLocalCoords rect e) - snd (ds_centerWorldStart ds) =
          lam * ((ds_startX ds - fst (ds_centerWorldStart ds)) * sin (toRad theta)
                 + (ds_startY ds - snd (ds_centerWorldStart ds)) * cos (toRad theta))"
  then have a0: "a0 = atan2 (ds_startY ds - cy) (ds_startX ds - cx)"
    and off: "ds_startX ds - cx \<noteq> 0 \<or> ds_startY ds - cy \<noteq> 0"
    and lam: "0 < lam"
    and qx: "qx = lam * ((ds_startX ds - cx) * cos (toRad theta)
                 - (ds_startY ds - cy) * sin (toRad theta))"
    and qy: "qy = lam * ((ds_startX ds - cx) * sin (toRad theta)
                 + (ds_startY ds - cy) * cos (toRad theta))"
    unfolding cx_def cy_def qx_def qy_def by simp_all
  have deg: "toRad theta * 180 / pi = theta"
    by (simp add: toRad_def)
  {
    obtain k :: int where "atan2 qy qx = a0 + toRad theta + 2 * pi * of_int k"
      using rotated_pointer_angle(1) [OF off lam qx qy] unfolding a0 by blast
    then have "(atan2 qy qx - a0) * 180 / pi = toRad theta * 180 / pi + 360 * of_int k"
      by (simp add: field_simps)
    then have "(atan2 qy qx - a0) * 180 / pi = theta + 360 * of_int k"
      unfolding deg .
    then have "map l_rotation (layers (fst (handlePointerMove rect e (st, ed)))) =
            map (\<lambda>l. if l_id l = sel
                      then l_rotation (ds_startLayerState ds) + theta + 360 * of_int k
                      else l_rotation l) (layers st)"
      unfolding rot by (simp add: add.assoc)
    then show "\<exists>k::int. map l_rotation (layers (fst (handlePointerMove rect e (st, ed)))) =
            map (\<lambda>l. if l_id l = sel
                      then l_rotation (ds_startLayerState ds) + theta + 360 * of_int k
                      else l_rotation l) (layers st)"
      by blast
  }
  {
    assume "- pi < a0 + toRad theta \<and> a0 + toRad theta \<le> pi"
    then have "atan2 qy qx = a0 + toRad theta"
      using rotated_pointer_angle(2) [OF off lam qx qy] unfolding a0 by blast
    then have "(atan2 qy qx - a0) * 180 / pi = toRad theta * 180 / pi"
      by simp
    then have "(atan2 qy qx - a0) * 180 / pi = theta"
      unfolding deg .
    then show "map l_rotation (layers (fst (handlePointerMove rect e (st, ed)))) =
            map (\<lambda>l. if l_id l = sel
                      then l_rotation (ds_startLayerState ds) + theta
                      else l_rotation l) (layers st)"
      unfolding rot by simp
  }
qed


lemma scenario_down_rotate:
  "handlePointerDown None (pointerAt mx my) ''a'' Rotate None (scenarioState, initialLocal) =
     (scenarioState\<lparr>selectedLayerId := Some ''a''\<rparr>,
      initialLocal\<lparr>dragState := Some
           \<lparr>ds_mode = Rotate, ds_handle = None, ds_startX = mx, ds_startY = my,
            ds_startLayerState = hd (layers scenarioState),
            ds_centerWorldStart = (150, 100),
            ds_pivotWorld = None, ds_startDist = None,
            ds_startAngle = Some (atan2 (my - 100) (mx - 150))\<rparr>\<rparr>)"
  by (simp add: handlePointerDown_def scenarioState_eq initialLocal_def pointerAt_def
      getLocalCoords_def handleSelectLayer_def Let_def)

lemma atan2_left: "atan2 0 (- 50) = pi" "atan2 (- 50) 0 = - (pi / 2)"
  by (simp_all add: atan2_def)

theorem rotate_update_witness:
  "map (\<lambda>l. (l_x l, l_y l, l_scale l, l_rotation l, l_width l, l_height l))
     (layers (fst (handlePointerMove None (pointerAt 150 150)
        (handlePointerDown None (pointerAt 200 100) ''a'' Rotate None
           (scenarioState, initialLocal)))))
   = [(50, 50, 1, 90, 200, 100)]"
proof -
  let ?ds = "\<lparr>ds_mode = Rotate, ds_handle = None, ds_startX = 200, ds_startY = 100,
            ds_startLayerState = hd (layers scenarioState),
            ds_centerWorldStart = (150, 100),
            ds_pivotWorld = None, ds_startDist = None,
            ds_startAngle = Some (atan2 (100 - 100) (200 - 150))\<rparr>"
  let ?st = "scenarioState\<lparr>selectedLayerId := Some ''a''\<rparr>"
  let ?ed = "initialLocal\<lparr>dragState := Some ?ds\<rparr>"
  have g: "dragState ?ed = Some ?ds" "ds_mode ?ds = Rotate"
    "ds_startAngle ?ds = Some (atan2 (100 - 100) (200 - 150))"
    "selectedLayerId ?st = Some ''a''" "''a'' \<noteq> []"
    by simp_all
  have turn: "atan2 (100 - 100) (200 - 150) =
        atan2 (ds_startY ?ds - snd (ds_centerWorldStart ?ds))
              (ds_startX ?ds - fst (ds_centerWorldStart ?ds))
      \<and> (ds_startX ?ds \<noteq> fst (ds_centerWorldStart ?ds)
           \<or> ds_startY ?ds \<noteq> snd (ds_centerWorldStart ?ds))
      \<and> (0::real) < 1
      \<and> fst (getLocalCoords None (pointerAt 150 150)) - fst (ds_centerWorldStart ?ds) =
          1 * ((ds_startX ?ds - fst (ds_centerWorldStart ?ds)) * cos (toRad 90)
                 - (ds_startY ?ds - snd (ds_centerWorldStart ?ds)) * sin (toRad 90))
      \<and> snd (getLocalCoords None (pointerAt 150 150)) - snd (ds_centerWorldStart ?ds) =
          1 * ((ds_startX ?ds - fst (ds_centerWorldStart ?ds)) * sin (toRad 90)
                 + (ds_startY ?ds - snd (ds_centerWorldStart ?ds)) * cos (toRad 90))"
    by (simp add: getLocalCoords_def pointerAt_def toRad_def)
  have inside: "- pi < atan2 (100 - 100) (200 - 150) + toRad 90
      \<and> atan2 (100 - 100) (200 - 150) + toRad 90 \<le> pi"
    by (simp add: atan2_scenario toRad_def)
  from rotate_update [OF g, where rect = None and e = "pointerAt 150 150" and lam = 1
      and theta = 90] turn inside
  have full: "handlePointerMove None (pointerAt 150 150) (?st, ?ed) =
     (?st\<lparr>layers := map (\<lambda>l. if l_id l = ''a''
          then l\<lparr>l_rotation := l_rotation (ds_startLayerState ?ds)
                 + (atan2 (snd (getLocalCoords None (pointerAt 150 150)) - snd (ds_centerWorldStart ?ds))
                          (fst (getLocalCoords None (pointerAt 150 150)) - fst (ds_centerWorldStart ?ds))
                     - atan2 (100 - 100) (200 - 150))
                   * 180 / pi\<rparr>
          else l) (layers ?st)\<rparr>,
      ?ed\<lparr>isDraggingRef := True\<rparr>)"
    and rot: "map l_rotation (layers (fst (handlePointerMove None (pointerAt 150 150) (?st, ?ed)))) =
            map (\<lambda>l. if l_id l = ''a''
                      then l_rotation (ds_startLayerState ?ds) + 90
                      else l_rotation l) (layers ?st)"
    by blast+
  have "map (\<lambda>l. (l_x l, l_y l, l_scale l, l_rotation l, l_width l, l_height l))
     (layers (fst (handlePointerMove None (pointerAt 150 150) (?st, ?ed))))
   = [(50, 50, 1, 90, 200, 100)]"
    using rot unfolding full by (simp add: scenarioState_eq)
  then show ?thesis
    unfolding scenario_down_rotate by simp
qed

text \<open>
  C3 as stated fails across the cut of \<open>atan2\<close>: the pointer starts at angle \<open>\<pi>\<close> and
  is turned by 90 degrees about the centre; the rotation changes by -270, not by 90.
\<close>

theorem rotate_update_counterexample:
  "map l_rotation
     (layers (fst (handlePointerMove None (pointerAt 150 50)
        (handlePointerDown None (pointerAt 100 100) ''a'' Rotate None
           (scenarioState, initialLocal)))))
   = [- 270]
   \<and> (150 - 150 :: real) = 1 * ((100 - 150) * cos (toRad 90) - (100 - 100) * sin (toRad 90))
   \<and> (50 - 100 :: real) = 1 * ((100 - 150) * sin (toRad 90) + (100 - 100) * cos (toRad 90))
   \<and> map l_rotation (layers scenarioState) = [0]
   \<and> (- 270 :: real) \<noteq> 0 + 90"
  unfolding scenario_down_rotate
  by (simp add: handlePointerMove_def handleUpdateLayer_def spread_rotation scenarioState_eq
      initialLocal_def pointerAt_def getLocalCoords_def atan2_left toRad_def Let_def)

end
